theory Spec2Isabelle
  imports Complex_Main "HOL-Library.Char_ord" "HOL-Library.List_Lexorder" "HOL-Library.Sublist"
begin

section \<open>Python values shared by the three modules\<close>

text \<open>
  Strings are lists of characters; a character stands for a code point below 256.
  An exception is kept as a value: \<open>RuntimeError\<close> is what the repository raises itself,
  \<open>LibraryError\<close> is any exception coming out of torch, faster-whisper, transformers,
  pathlib or the operating system. \<open>str_of\<close> is Python's \<open>str(e)\<close>.
\<close>

datatype error = RuntimeError string | LibraryError string

fun str_of :: "error \<Rightarrow> string" where
  "str_of (RuntimeError m) = m"
| "str_of (LibraryError m) = m"

text \<open>\<open>sep.join(xs)\<close>\<close>

fun join :: "string \<Rightarrow> string list \<Rightarrow> string" where
  "join sep [] = []"
| "join sep [x] = x"
| "join sep (x # y # ys) = x @ sep @ join sep (y # ys)"

text \<open>
  \<open>str.isspace\<close> on one character, for code points below 256: TAB, LF, VT, FF, CR,
  the separators FS, GS, RS, US, the space, NEL and the no-break space.
\<close>

definition is_space :: "char \<Rightarrow> bool" where
  "is_space c = ((of_char c :: nat) \<in> {9, 10, 11, 12, 13, 28, 29, 30, 31, 32, 133, 160})"

text \<open>\<open>str.strip()\<close>\<close>

definition lstrip :: "string \<Rightarrow> string" where
  "lstrip s = dropWhile is_space s"

definition rstrip :: "string \<Rightarrow> string" where
  "rstrip s = rev (dropWhile is_space (rev s))"

definition strip :: "string \<Rightarrow> string" where
  "strip s = rstrip (lstrip s)"

text \<open>\<open>str(n)\<close> for a length, in decimal.\<close>

definition digit :: "nat \<Rightarrow> char" where
  "digit d = char_of (48 + d)"

function str_of_nat :: "nat \<Rightarrow> string" where
  "str_of_nat n = (if n < 10 then [digit n] else str_of_nat (n div 10) @ [digit (n mod 10)])"
  by pat_completeness auto
termination
  by (relation "measure (\<lambda>n. n)") auto

text \<open>
  A \<open>pathlib.Path\<close>: the anchor (drive and root) and the components after it.
  \<open>p / name\<close> appends one component, \<open>p.parent\<close> drops the last one (the parent of an
  anchor is the anchor), \<open>str(p)\<close> joins with the separator of the platform; the path
  with no anchor and no component prints as a dot.
\<close>

datatype path = Path (anchor: string) (tail: "string list")

definition joinpath :: "path \<Rightarrow> string \<Rightarrow> path" where
  "joinpath p name = Path (anchor p) (tail p @ [name])"

definition parent :: "path \<Rightarrow> path" where
  "parent p = Path (anchor p) (butlast (tail p))"

definition path_name :: "path \<Rightarrow> string" where
  "path_name p = (if tail p = [] then [] else last (tail p))"

definition path_str :: "string \<Rightarrow> path \<Rightarrow> string" where
  "path_str sep p =
     (if anchor p = [] \<and> tail p = [] then ''.'' else anchor p @ join sep (tail p))"

section \<open>The host: what the code reads from the machine and from its libraries\<close>

text \<open>
  Every call that leaves the repository is a field of the host, with the exception it may
  raise as a value.
  \<^item> \<open>os_name\<close>: \<open>os.name\<close>;
  \<^item> \<open>sys_executable\<close>: \<open>sys.executable\<close> as a path, \<open>None\<close> when Python cannot tell
    (then \<open>Path(sys.executable)\<close> raises);
  \<^item> \<open>path_exists\<close>: \<open>Path.exists()\<close>;
  \<^item> \<open>torch_cuda_is_available\<close>: \<open>torch.cuda.is_available()\<close>, in the transcriber after
    \<open>import torch\<close>;
  \<^item> \<open>torch_total_memory\<close>: \<open>torch.cuda.get_device_properties(0).total_memory\<close>, in bytes;
  \<^item> \<open>py_repr\<close>: the text an f-string gives for a list of \<open>str\<close>;
  \<^item> \<open>whisper_installed\<close>: \<open>WhisperModel is not None\<close>;
  \<^item> \<open>whisper_init_error\<close>: the exception \<open>WhisperModel(model, device=, compute_type=)\<close>
    raises, \<open>None\<close> when it constructs the model;
  \<^item> \<open>whisper_transcribe\<close>: the \<open>text\<close> of the segments \<open>model.transcribe\<close> yields for a
    file, or the exception raised by the call or while the segments are read;
  \<^item> \<open>glob_wav\<close>: the names \<open>audio_dir.glob("*.wav")\<close> yields, in the order of the
    operating system;
  \<^item> \<open>mkdir_error\<close>, \<open>write_error\<close>: the exception of \<open>mkdir\<close> and of \<open>write_text\<close>,
    if any.
\<close>

datatype whisper = WhisperModel (w_model: string) (w_device: string) (w_compute: string)

record host =
  os_name :: string
  sys_executable :: "path option"
  path_exists :: "path \<Rightarrow> error + bool"
  torch_cuda_is_available :: "error + bool"
  torch_total_memory :: "error + nat"
  py_repr :: "string list \<Rightarrow> string"
  whisper_installed :: bool
  whisper_init_error :: "string \<Rightarrow> string \<Rightarrow> string \<Rightarrow> error option"
  whisper_transcribe :: "whisper \<Rightarrow> string \<Rightarrow> error + string list"
  glob_wav :: "path \<Rightarrow> string list"
  mkdir_error :: "path \<Rightarrow> error option"
  write_error :: "path \<Rightarrow> error option"

definition os_sep :: "host \<Rightarrow> string" where
  "os_sep h = (if os_name h = ''nt'' then [CHR 0x5C] else ''/'')"

definition os_pathsep :: "host \<Rightarrow> string" where
  "os_pathsep h = (if os_name h = ''nt'' then '';'' else '':'')"

text \<open>
  The world the transcriber changes: the process environment \<open>os.environ\<close>, the lines
  handed to the log, the constructor calls made on \<open>WhisperModel\<close> (model, device,
  compute type) and the text files written.
\<close>

record world =
  environ :: "string \<rightharpoonup> string"
  log :: "string list"
  whisper_calls :: "(string \<times> string \<times> string) list"
  files :: "path \<rightharpoonup> string"

text \<open>
  Modelled from the spec: \<open>safe_log\<close> of \<open>OpenEduVoice.utils.logging_utils\<close> is not among
  the sources. The log channel is an append-only stream of lines that never raises.
\<close>

definition safe_log :: "string \<Rightarrow> world \<Rightarrow> world" where
  "safe_log msg w = w\<lparr>log := log w @ [msg]\<rparr>"

section \<open>core/audio/transcriber.py\<close>

definition DEFAULT_WHISPER_MODEL :: string where
  "DEFAULT_WHISPER_MODEL = ''medium''"

definition UNSAFE_LARGE_MODELS :: "string set" where
  "UNSAFE_LARGE_MODELS = {''large'', ''large-v2''}"

text \<open>The three DLL directories of the pip-installed NVIDIA wheels.\<close>

definition nvidia_candidates :: "host \<Rightarrow> error + path list" where
  "nvidia_candidates h =
     (case sys_executable h of
        None \<Rightarrow> Inl (LibraryError ''expected str, bytes or os.PathLike object, not NoneType'')
      | Some exe \<Rightarrow>
          (let venv_base = parent (parent exe);
               nvidia_path = joinpath (joinpath (joinpath venv_base ''Lib'') ''site-packages'') ''nvidia''
           in Inr [joinpath (joinpath nvidia_path ''cuda_runtime'') ''bin'',
                   joinpath (joinpath nvidia_path ''cublas'') ''bin'',
                   joinpath (joinpath nvidia_path ''cudnn'') ''bin'']))"

text \<open>\<open>any(p.exists() for p in candidates)\<close>: stops at the first directory that exists.\<close>

fun any_exists :: "host \<Rightarrow> path list \<Rightarrow> error + bool" where
  "any_exists h [] = Inr False"
| "any_exists h (p # ps) =
     (case path_exists h p of
        Inl e \<Rightarrow> Inl e
      | Inr True \<Rightarrow> Inr True
      | Inr False \<Rightarrow> any_exists h ps)"

definition cuda_wheels_present :: "host \<Rightarrow> bool" where
  "cuda_wheels_present h =
     (if os_name h \<noteq> ''nt'' then False
      else (case nvidia_candidates h of
              Inl e \<Rightarrow> False
            | Inr candidates \<Rightarrow>
                (case any_exists h candidates of Inl e \<Rightarrow> False | Inr b \<Rightarrow> b)))"

definition torch_cuda_available :: "host \<Rightarrow> bool" where
  "torch_cuda_available h =
     (case torch_cuda_is_available h of Inl e \<Rightarrow> False | Inr b \<Rightarrow> b)"

definition select_device_and_compute :: "host \<Rightarrow> string \<Rightarrow> string \<times> string" where
  "select_device_and_compute h model_name =
     (let cuda_ok = torch_cuda_available h
      in if cuda_ok then (''cuda'', ''float16'') else (''cpu'', ''int8''))"

text \<open>\<open>[str(p) for p in candidates if p.exists()]\<close>\<close>

fun existing_dirs :: "host \<Rightarrow> path list \<Rightarrow> error + string list" where
  "existing_dirs h [] = Inr []"
| "existing_dirs h (p # ps) =
     (case path_exists h p of
        Inl e \<Rightarrow> Inl e
      | Inr b \<Rightarrow>
          (case existing_dirs h ps of
             Inl e \<Rightarrow> Inl e
           | Inr ds \<Rightarrow> Inr (if b then path_str (os_sep h) p # ds else ds)))"

text \<open>\<open>if key not in os.environ: os.environ[key] = value\<close>\<close>

definition set_if_absent :: "string \<Rightarrow> string \<Rightarrow> world \<Rightarrow> world" where
  "set_if_absent key v w =
     (if key \<in> dom (environ w) then w else w\<lparr>environ := (environ w)(key \<mapsto> v)\<rparr>)"

definition paths_appended_info :: "host \<Rightarrow> string list \<Rightarrow> string" where
  "paths_appended_info h to_prepend = ''[INFO] CUDA DLL paths appended: '' @ py_repr h to_prepend"

definition paths_failed_warning :: "error \<Rightarrow> string" where
  "paths_failed_warning e = ''[WARN] set_cuda_paths failed (continuing without): '' @ str_of e"

text \<open>The body of the \<open>try\<close> of \<open>set_cuda_paths\<close>; \<open>Inl\<close> is an exception raised in it.\<close>

definition set_cuda_paths_try :: "host \<Rightarrow> world \<Rightarrow> error + world" where
  "set_cuda_paths_try h w =
     (case nvidia_candidates h of
        Inl e \<Rightarrow> Inl e
      | Inr candidates \<Rightarrow>
          (case existing_dirs h candidates of
             Inl e \<Rightarrow> Inl e
           | Inr to_prepend \<Rightarrow>
               if to_prepend = [] then Inr w
               else
                 (let current = (case environ w ''PATH'' of None \<Rightarrow> [] | Some v \<Rightarrow> v);
                      new_path = join (os_pathsep h)
                                   (to_prepend @ (if current \<noteq> [] then [current] else []));
                      w1 = w\<lparr>environ := (environ w)(''PATH'' \<mapsto> new_path)\<rparr>;
                      w2 = set_if_absent ''CUDA_PATH'' (join (os_pathsep h) to_prepend) w1;
                      w3 = set_if_absent ''CUDA_PATH_V12_4'' (join (os_pathsep h) to_prepend) w2
                  in Inr (safe_log (paths_appended_info h to_prepend) w3))))"

definition set_cuda_paths :: "host \<Rightarrow> world \<Rightarrow> error + world" where
  "set_cuda_paths h w =
     (if os_name h \<noteq> ''nt'' then Inr w
      else (case set_cuda_paths_try h w of
              Inr w' \<Rightarrow> Inr w'
            | Inl e \<Rightarrow> Inr (safe_log (paths_failed_warning e) w)))"

text \<open>The apostrophe of the messages, and \<open>str(last_err)\<close> for an optional exception.\<close>

definition apo :: string where
  "apo = [CHR 0x27]"

definition str_of_opt :: "error option \<Rightarrow> string" where
  "str_of_opt e = (case e of None \<Rightarrow> ''None'' | Some x \<Rightarrow> str_of x)"

definition substitution_warning :: "string \<Rightarrow> string" where
  "substitution_warning requested_model =
     ''[WARN] Whisper model '' @ apo @ requested_model @ apo @ '' on CUDA has been unstable ''
     @ ''on this setup. Overriding to '' @ apo @ DEFAULT_WHISPER_MODEL @ apo @ '' for reliability.''"

definition loading_info :: "string \<Rightarrow> string \<Rightarrow> string \<Rightarrow> string" where
  "loading_info effective_model device compute_type =
     ''[INFO] Loading faster-whisper model '' @ apo @ effective_model @ apo @ '' ''
     @ ''on device '' @ apo @ device @ apo @ '' (compute_type='' @ compute_type @ '')''"

definition init_failed_warning :: "string \<Rightarrow> string \<Rightarrow> string \<Rightarrow> error \<Rightarrow> string" where
  "init_failed_warning effective_model device compute_type e =
     ''[WARN] Model init failed with ''
     @ ''device='' @ device @ '', compute_type='' @ compute_type @ '', ''
     @ ''model='' @ apo @ effective_model @ apo @ '': '' @ str_of e"

definition compute_candidates :: "string \<Rightarrow> string \<Rightarrow> string list" where
  "compute_candidates device preferred_compute =
     (if device = ''cuda'' then [preferred_compute, ''float32'', ''int8'']
      else [preferred_compute, ''float32''])"

text \<open>
  The \<open>for compute_type in compute_candidates\<close> loop of \<open>_init_model\<close>: \<open>Inr\<close> is the
  \<open>return model\<close> inside the loop, \<open>Inl last_err\<close> is the loop running to its end.
\<close>

fun try_candidates ::
  "host \<Rightarrow> string \<Rightarrow> string \<Rightarrow> string list \<Rightarrow> error option \<Rightarrow> world
     \<Rightarrow> (error option + whisper) \<times> world" where
  "try_candidates h effective_model device [] last_err w = (Inl last_err, w)"
| "try_candidates h effective_model device (compute_type # rest) last_err w =
     (let w1 = safe_log (loading_info effective_model device compute_type) w;
          w2 = w1\<lparr>whisper_calls := whisper_calls w1 @ [(effective_model, device, compute_type)]\<rparr>
      in case whisper_init_error h effective_model device compute_type of
           None \<Rightarrow> (Inr (WhisperModel effective_model device compute_type), w2)
         | Some e \<Rightarrow>
             try_candidates h effective_model device rest (Some e)
               (safe_log (init_failed_warning effective_model device compute_type e) w2))"

definition init_failure :: "string \<Rightarrow> string \<Rightarrow> error option \<Rightarrow> error" where
  "init_failure requested_model device last_err =
     RuntimeError (''Failed to initialize faster-whisper model '' @ apo @ requested_model @ apo @ '' ''
                   @ ''on device '' @ apo @ device @ apo @ '': '' @ str_of_opt last_err)"

definition init_model :: "host \<Rightarrow> string \<Rightarrow> world \<Rightarrow> (error + whisper) \<times> world" where
  "init_model h model_size w =
     (if \<not> whisper_installed h
      then (Inl (RuntimeError ''faster-whisper is not installed or failed to import.''), w)
      else
        (let requested_model = (if model_size \<noteq> [] then model_size else DEFAULT_WHISPER_MODEL);
             device = fst (select_device_and_compute h requested_model);
             preferred_compute = snd (select_device_and_compute h requested_model);
             unsafe = (device = ''cuda'' \<and> requested_model \<in> UNSAFE_LARGE_MODELS);
             w1 = (if unsafe then safe_log (substitution_warning requested_model) w else w);
             effective_model = (if unsafe then DEFAULT_WHISPER_MODEL else requested_model)
         in case (if device = ''cuda'' then set_cuda_paths h w1 else Inr w1) of
              Inl e \<Rightarrow> (Inl e, w1)
            | Inr w2 \<Rightarrow>
                (case try_candidates h effective_model device
                        (compute_candidates device preferred_compute) None w2 of
                   (Inr model, w3) \<Rightarrow> (Inr model, w3)
                 | (Inl last_err, w3) \<Rightarrow> (Inl (init_failure requested_model device last_err), w3))))"

text \<open>
  \<open>Path.stem\<close>: the name without its last suffix; a name whose only dot is the first or
  the last character has no suffix.
\<close>

definition rfind_dot :: "string \<Rightarrow> nat option" where
  "rfind_dot name =
     (if CHR ''.'' \<in> set name
      then Some (length name - 1 - length (takeWhile (\<lambda>c. c \<noteq> CHR ''.'') (rev name)))
      else None)"

definition stem :: "string \<Rightarrow> string" where
  "stem name =
     (case rfind_dot name of
        None \<Rightarrow> name
      | Some i \<Rightarrow> if 0 < i \<and> i < length name - 1 then take i name else name)"

text \<open>
  The order of \<open>sorted\<close> on the paths of one directory: by name, compared without case
  on Windows.
\<close>

definition lower :: "char \<Rightarrow> char" where
  "lower c =
     (let n = (of_char c :: nat)
      in if (65 \<le> n \<and> n \<le> 90) \<or> (192 \<le> n \<and> n \<le> 222 \<and> n \<noteq> 215) then char_of (n + 32) else c)"

definition path_key :: "host \<Rightarrow> string \<Rightarrow> string" where
  "path_key h name = (if os_name h = ''nt'' then map lower name else name)"

definition transcribed_info :: "string \<Rightarrow> string \<Rightarrow> nat \<Rightarrow> string" where
  "transcribed_info wav_name out_name n =
     ''[INFO] Transcribed: '' @ wav_name @ '' -> '' @ out_name @ '' ('' @ str_of_nat n @ '' chars)''"

definition transcribe_failed_error :: "string \<Rightarrow> error \<Rightarrow> string" where
  "transcribe_failed_error wav_name e =
     ''[ERROR] Failed to transcribe '' @ wav_name @ '': '' @ str_of e"

definition load_failed_error :: "string \<Rightarrow> error \<Rightarrow> string" where
  "load_failed_error model_size e =
     ''[ERROR] Could not load Whisper model '' @ apo @ model_size @ apo @ '': '' @ str_of e"

definition no_wav_info :: "host \<Rightarrow> path \<Rightarrow> string" where
  "no_wav_info h audio_dir = ''[INFO] No .wav files found in: '' @ path_str (os_sep h) audio_dir"

definition total_info :: "nat \<Rightarrow> string" where
  "total_info n = ''[INFO] Total transcripts written: '' @ str_of_nat n"

definition out_path_of :: "path \<Rightarrow> path \<Rightarrow> path" where
  "out_path_of output_dir wav_file = joinpath output_dir (stem (path_name wav_file) @ ''.txt'')"

text \<open>The body of \<open>for wav_file in wav_files\<close>, with its \<open>try\<close> and \<open>except\<close>.\<close>

definition transcribe_one ::
  "host \<Rightarrow> whisper \<Rightarrow> path \<Rightarrow> path \<Rightarrow> path list \<times> world \<Rightarrow> path list \<times> world" where
  "transcribe_one h model output_dir wav_file st =
     (let transcribed_files = fst st; w = snd st
      in case whisper_transcribe h model (path_str (os_sep h) wav_file) of
           Inl e \<Rightarrow> (transcribed_files, safe_log (transcribe_failed_error (path_name wav_file) e) w)
         | Inr segments \<Rightarrow>
             (let transcript = strip (join '' '' segments);
                  out_path = out_path_of output_dir wav_file
              in case write_error h out_path of
                   Some e \<Rightarrow>
                     (transcribed_files, safe_log (transcribe_failed_error (path_name wav_file) e) w)
                 | None \<Rightarrow>
                     (transcribed_files @ [out_path],
                      safe_log (transcribed_info (path_name wav_file) (path_name out_path)
                                  (length transcript))
                        (w\<lparr>files := (files w)(out_path \<mapsto> transcript)\<rparr>))))"

fun transcribe_loop ::
  "host \<Rightarrow> whisper \<Rightarrow> path \<Rightarrow> path list \<Rightarrow> path list \<times> world \<Rightarrow> path list \<times> world" where
  "transcribe_loop h model output_dir [] st = st"
| "transcribe_loop h model output_dir (wav_file # rest) st =
     transcribe_loop h model output_dir rest (transcribe_one h model output_dir wav_file st)"

definition wav_files_of :: "host \<Rightarrow> path \<Rightarrow> path list" where
  "wav_files_of h audio_dir = map (joinpath audio_dir) (sort_key (path_key h) (glob_wav h audio_dir))"

text \<open>\<open>transcribe_audio_files\<close> from the model it loaded on: lines 203 to 230.\<close>

definition transcribe_with_model ::
  "host \<Rightarrow> whisper \<Rightarrow> path \<Rightarrow> path \<Rightarrow> world \<Rightarrow> path list \<times> world" where
  "transcribe_with_model h model audio_dir output_dir w =
     (let wav_files = wav_files_of h audio_dir
      in if wav_files = []
         then ([], safe_log (no_wav_info h audio_dir) w)
         else
           (let st = transcribe_loop h model output_dir wav_files ([], w)
            in (fst st,
                safe_log (total_info (length (fst st))) (snd st))))"

definition transcribe_audio_files ::
  "host \<Rightarrow> path \<Rightarrow> path \<Rightarrow> string \<Rightarrow> world \<Rightarrow> (error + path list) \<times> world" where
  "transcribe_audio_files h audio_dir output_dir model_size w =
     (case mkdir_error h output_dir of
        Some e \<Rightarrow> (Inl e, w)
      | None \<Rightarrow>
          (case (if cuda_wheels_present h \<and> torch_cuda_available h then set_cuda_paths h w else Inr w) of
             Inl e \<Rightarrow> (Inl e, w)
           | Inr w1 \<Rightarrow>
               (case init_model h model_size w1 of
                  (Inl e, w2) \<Rightarrow>
                    (Inr [],
                     safe_log (load_failed_error model_size e) w2)
                | (Inr model, w2) \<Rightarrow>
                    (let r = transcribe_with_model h model audio_dir output_dir w2
                     in (Inr (fst r), snd r)))))"

section \<open>core/translation/nllb_model.py\<close>

definition DEFAULT_MODEL_SMALL :: string where
  "DEFAULT_MODEL_SMALL = ''facebook/nllb-200-distilled-600M''"

definition DEFAULT_MODEL_LARGE :: string where
  "DEFAULT_MODEL_LARGE = ''facebook/nllb-200-3.3B''"

text \<open>
  \<open>_cuda_total_gib\<close>. The source divides the byte count, as a float, by \<open>1024 ** 3\<close>; the
  division by a power of two is exact and the conversion of the byte count is monotone and
  keeps \<open>16 * 1024 ** 3\<close>, so the comparisons with \<open>16.0\<close> below come out as on the
  reals.
\<close>

definition cuda_total_gib :: "host \<Rightarrow> real" where
  "cuda_total_gib h =
     (case torch_cuda_is_available h of
        Inl e \<Rightarrow> 0
      | Inr available \<Rightarrow>
          if \<not> available then 0
          else (case torch_total_memory h of
                  Inl e \<Rightarrow> 0
                | Inr total_memory \<Rightarrow> real total_memory / 1024 ^ 3))"

text \<open>\<open>if requested\<close>: \<open>None\<close> and the empty string both select automatically.\<close>

definition pick_model_name :: "host \<Rightarrow> string option \<Rightarrow> string" where
  "pick_model_name h requested =
     (case requested of
        Some name \<Rightarrow>
          if name \<noteq> [] then name
          else (let vram_gib = cuda_total_gib h
                in if vram_gib \<ge> 16 then DEFAULT_MODEL_LARGE else DEFAULT_MODEL_SMALL)
      | None \<Rightarrow>
          (let vram_gib = cuda_total_gib h
           in if vram_gib \<ge> 16 then DEFAULT_MODEL_LARGE else DEFAULT_MODEL_SMALL))"

text \<open>\<open>_choose_device\<close>: the call to torch is not guarded here.\<close>

definition choose_device :: "host \<Rightarrow> error + string" where
  "choose_device h =
     (case torch_cuda_is_available h of
        Inl e \<Rightarrow> Inl e
      | Inr available \<Rightarrow> Inr (if available then ''cuda'' else ''cpu''))"

text \<open>
  The transformers library: the exception of loading tokenizer and model for a model name
  on a device, the exception of tokenizing a chunk, and the decoded text that
  \<open>model.generate\<close> gives for a chunk between two languages.
\<close>

record nllb_lib =
  nllb_load_error :: "string \<Rightarrow> string \<Rightarrow> error option"
  nllb_tokenize_error :: "string \<Rightarrow> error option"
  nllb_generate :: "string \<Rightarrow> string \<Rightarrow> string \<Rightarrow> error + string"

text \<open>
  The fields of the translator object are \<open>self.source_lang\<close>, \<open>self.target_lang\<close>,
  \<open>self.device.type\<close> and \<open>self.model_name\<close>.
  What the translator changes: the process environment, the lines handed to the \<open>log\<close>
  callback, \<open>tokenizer.src_lang\<close>, and the chunks handed to \<open>model.generate\<close>.
\<close>

record session =
  s_environ :: "string \<rightharpoonup> string"
  s_lines :: "string list"
  s_src_lang :: "string option"
  s_generate_calls :: "string list"

record translator =
  tr_source_lang :: string
  tr_target_lang :: string
  tr_device :: string
  tr_model_name :: string

text \<open>\<open>if log: log(msg)\<close>; \<open>log_cb\<close> is true when a \<open>log\<close> callback was passed.\<close>

definition log_line :: "bool \<Rightarrow> string \<Rightarrow> session \<Rightarrow> session" where
  "log_line log_cb msg st = (if log_cb then st\<lparr>s_lines := s_lines st @ [msg]\<rparr> else st)"

text \<open>\<open>os.environ.setdefault\<close> in \<open>_set_allocator_hints\<close>\<close>

definition set_allocator_hints :: "session \<Rightarrow> session" where
  "set_allocator_hints st =
     (if ''PYTORCH_CUDA_ALLOC_CONF'' \<in> dom (s_environ st) then st
      else st\<lparr>s_environ := (s_environ st)(''PYTORCH_CUDA_ALLOC_CONF'' \<mapsto> ''expandable_segments:True'')\<rparr>)"

definition memory_fallback_warning :: string where
  "memory_fallback_warning =
     ''[WARN] NLLB model '' @ apo @ ''facebook/nllb-200-3.3B'' @ apo @ '' is too large for this GPU. ''
     @ ''Falling back to CPU to avoid CUDA OOM.''"

definition model_selected_info :: "string \<Rightarrow> string \<Rightarrow> string" where
  "model_selected_info name dev = ''[INFO] NLLB model selected: '' @ name @ '' (device='' @ dev @ '')''"

text \<open>
  The condition of the override in the constructor:
  \<open>chosen_model == DEFAULT_MODEL_LARGE and self.device.type == "cuda" and _cuda_total_gib() < 16.0\<close>
\<close>

definition too_large_for_gpu :: "host \<Rightarrow> string \<Rightarrow> string \<Rightarrow> bool" where
  "too_large_for_gpu h chosen_model device_type =
     (chosen_model = DEFAULT_MODEL_LARGE \<and> device_type = ''cuda'' \<and> cuda_total_gib h < 16)"

text \<open>
  \<open>NLLBTranslator.__init__\<close>. \<open>torch.cuda.empty_cache()\<close> has its exceptions swallowed and
  changes nothing that is observed here.
\<close>

definition translator_init ::
  "host \<Rightarrow> nllb_lib \<Rightarrow> string \<Rightarrow> string \<Rightarrow> string option \<Rightarrow> bool \<Rightarrow> session
     \<Rightarrow> (error + translator) \<times> session" where
  "translator_init h lib src tgt requested log_cb st =
     (case choose_device h of
        Inl e \<Rightarrow> (Inl e, st)
      | Inr device0 \<Rightarrow>
          (let chosen_model = pick_model_name h requested;
               fallback = too_large_for_gpu h chosen_model device0;
               st1 = (if fallback then log_line log_cb memory_fallback_warning st else st);
               dev = (if fallback then ''cpu'' else device0);
               st2 = (if dev = ''cuda'' then set_allocator_hints st1 else st1);
               st3 = log_line log_cb (model_selected_info chosen_model dev) st2
           in case nllb_load_error lib chosen_model dev of
                Some e \<Rightarrow> (Inl e, st3)
              | None \<Rightarrow>
                  (Inr \<lparr> tr_source_lang = src, tr_target_lang = tgt, tr_device = dev,
                         tr_model_name = chosen_model \<rparr>, st3)))"

text \<open>
  \<open>re.split(r"(?<=[.!?])\s+", s)\<close>: a run of white space is a separator when the character
  before it is one of the three marks; the run is taken whole. The first argument is the
  piece read so far, reversed.
\<close>

definition is_eos :: "char \<Rightarrow> bool" where
  "is_eos c = (c = CHR ''.'' \<or> c = CHR ''!'' \<or> c = CHR ''?'')"

function re_split_from :: "string \<Rightarrow> string \<Rightarrow> string list" where
  "re_split_from acc [] = [rev acc]"
| "re_split_from acc (c # cs) =
     (if is_space c \<and> acc \<noteq> [] \<and> is_eos (hd acc)
      then rev acc # re_split_from [] (dropWhile is_space cs)
      else re_split_from (c # acc) cs)"
  by pat_completeness auto
termination
  by (relation "measure (\<lambda>(acc, s). length s)")
     (auto simp add: le_imp_less_Suc length_dropWhile_le)

definition re_split :: "string \<Rightarrow> string list" where
  "re_split s = re_split_from [] s"

definition sentences_of :: "string \<Rightarrow> string list" where
  "sentences_of text = re_split (strip text)"

text \<open>The \<open>for sentence in sentences\<close> loop of \<open>_split_by_sentences\<close> and what follows it.\<close>

fun pack :: "int \<Rightarrow> string list \<Rightarrow> string \<Rightarrow> string list \<Rightarrow> string list" where
  "pack max_chars [] current chunks =
     (if current \<noteq> [] then chunks @ [strip current] else chunks)"
| "pack max_chars (sentence # rest) current chunks =
     (if sentence = [] then pack max_chars rest current chunks
      else if int (length current) + int (length sentence) \<le> max_chars
      then pack max_chars rest
             (if current \<noteq> [] then strip (current @ '' '' @ sentence) else sentence) chunks
      else pack max_chars rest sentence
             (if current \<noteq> [] then chunks @ [strip current] else chunks))"

definition split_by_sentences :: "string \<Rightarrow> int \<Rightarrow> string list" where
  "split_by_sentences text max_chars = pack max_chars (sentences_of text) [] []"

definition translating_info :: "nat \<Rightarrow> nat \<Rightarrow> string" where
  "translating_info idx n_chunks =
     ''[INFO] Translating chunk '' @ str_of_nat idx @ ''/'' @ str_of_nat n_chunks"

text \<open>
  The loop over the chunks in \<open>translate\<close>: an exception of the tokenizer or of the model
  leaves the loop and the function.
\<close>

fun translate_chunks ::
  "nllb_lib \<Rightarrow> translator \<Rightarrow> bool \<Rightarrow> nat \<Rightarrow> nat \<Rightarrow> string list \<Rightarrow> string list \<Rightarrow> session
     \<Rightarrow> (error + string list) \<times> session" where
  "translate_chunks lib tr log_cb n_chunks idx [] results st = (Inr results, st)"
| "translate_chunks lib tr log_cb n_chunks idx (chunk # rest) results st =
     (let st1 = log_line log_cb (translating_info idx n_chunks) st
      in case nllb_tokenize_error lib chunk of
           Some e \<Rightarrow> (Inl e, st1)
         | None \<Rightarrow>
             (let st2 = st1\<lparr>s_generate_calls := s_generate_calls st1 @ [chunk]\<rparr>
              in case nllb_generate lib (tr_source_lang tr) (tr_target_lang tr) chunk of
                   Inl e \<Rightarrow> (Inl e, st2)
                 | Inr translated \<Rightarrow>
                     translate_chunks lib tr log_cb n_chunks (idx + 1) rest
                       (results @ [strip translated]) st2))"

definition translate ::
  "nllb_lib \<Rightarrow> translator \<Rightarrow> string \<Rightarrow> int \<Rightarrow> bool \<Rightarrow> session \<Rightarrow> (error + string) \<times> session" where
  "translate lib tr text max_chars log_cb st =
     (let chunks = split_by_sentences text max_chars
      in if chunks = [] then (Inr [], st)
         else
           (let st1 = st\<lparr>s_src_lang := Some (tr_source_lang tr)\<rparr>
            in case translate_chunks lib tr log_cb (length chunks) 1 chunks [] st1 of
                 (Inl e, st2) \<Rightarrow> (Inl e, st2)
               | (Inr results, st2) \<Rightarrow> (Inr (join [CHR 0x0A] results), st2)))"

section \<open>app/main_window.py\<close>

text \<open>
  The state of the window that the orchestrator reads and writes: the acknowledgement
  check box, value and maximum of the progress bar, the lines of the log panel and of the
  output panel, the lines handed to \<open>safe_log\<close>, and the stage functions invoked so far, by
  their context name. Every update of a widget is scheduled on the Tk main thread and the
  work of a stage runs on a thread of its own; the model runs them in the order in which
  the chain of continuations orders them.
\<close>

record gui =
  acknowledge_var :: bool
  progress_value :: real
  progress_maximum :: real
  log_text :: "string list"
  output_text :: "string list"
  file_log :: "string list"
  invoked :: "string list"

text \<open>
  A stage function: the context name it reports failures under, and the body of the
  \<open>try\<close> of its task, which leaves the window in some state and may end in an exception.
\<close>

datatype step = Step (step_context: string) (step_work: "gui \<Rightarrow> error option \<times> gui")

definition ui_progress :: "real \<Rightarrow> gui \<Rightarrow> gui" where
  "ui_progress v g = g\<lparr>progress_value := v\<rparr>"

definition ui_log :: "string \<Rightarrow> gui \<Rightarrow> gui" where
  "ui_log message g = g\<lparr>log_text := log_text g @ [rstrip message]\<rparr>"

definition ui_output :: "string \<Rightarrow> gui \<Rightarrow> gui" where
  "ui_output message g = g\<lparr>output_text := output_text g @ [rstrip message]\<rparr>"

definition summary_prefixes :: "string list" where
  "summary_prefixes = [''[DONE]'', ''Combined'', ''Generated'', ''Translated'',
                       ''Saved'', ''Selected'', ''Starting'', ''[WARN]'', ''[ERROR]'']"

text \<open>
  \<open>log_and_output\<close>. Modelled from the spec: \<open>safe_log\<close> is not among the sources; it
  appends the line to a sink and never raises, so the \<open>except\<close> branch is not taken.
\<close>

definition log_and_output :: "string \<Rightarrow> gui \<Rightarrow> gui" where
  "log_and_output message g =
     (let g1 = g\<lparr>file_log := file_log g @ [message]\<rparr>;
          g2 = ui_log message g1
      in if list_ex (\<lambda>p. prefix p message) summary_prefixes then ui_output message g2 else g2)"

definition app_done :: "string \<Rightarrow> gui \<Rightarrow> gui" where
  "app_done msg g = log_and_output msg (ui_progress 100 g)"

definition handle_exception :: "string \<Rightarrow> error \<Rightarrow> gui \<Rightarrow> gui" where
  "handle_exception ctx e g = log_and_output (''[ERROR] '' @ ctx @ '': '' @ str_of e) g"

definition increment_progress :: "gui \<Rightarrow> gui" where
  "increment_progress g = ui_progress (progress_value g + 1) g"

text \<open>
  Calling a stage function with a continuation: the task runs its body, bumps the progress
  when the body ends normally and reports the exception otherwise; in both cases the
  continuation is scheduled afterwards.
\<close>

definition call_step :: "step \<Rightarrow> gui \<Rightarrow> gui" where
  "call_step method g =
     (let g0 = g\<lparr>invoked := invoked g @ [step_context method]\<rparr>;
          r = step_work method g0
      in case fst r of
           None \<Rightarrow> increment_progress (snd r)
         | Some e \<Rightarrow> handle_exception (step_context method) e (snd r))"

function run_step :: "(string \<times> step) list \<Rightarrow> nat \<Rightarrow> gui \<Rightarrow> gui" where
  "run_step selected_steps index g =
     (if index \<ge> length selected_steps
      then app_done ''All selected steps completed.'' g
      else
        (let name = fst (selected_steps ! index);
             method = snd (selected_steps ! index);
             g1 = log_and_output (''Starting: '' @ name) g
         in run_step selected_steps (index + 1) (call_step method g1)))"
  by pat_completeness auto
termination
  by (relation "measure (\<lambda>(selected_steps, index, g). length selected_steps - index)") auto

definition acknowledgement_warning :: string where
  "acknowledgement_warning =
     ''[WARN] Please confirm the acknowledgement checkbox before running any steps.''"

text \<open>\<open>steps_vars\<close> is the dictionary of the check boxes, in insertion order.\<close>

definition run_selected_steps :: "(string \<times> bool \<times> step) list \<Rightarrow> gui \<Rightarrow> gui" where
  "run_selected_steps steps_vars g =
     (if \<not> acknowledge_var g then log_and_output acknowledgement_warning g
      else
        (let g1 = g\<lparr>progress_value := 0\<rparr>;
             selected_steps = map (\<lambda>(name, var, method). (name, method))
                                (filter (\<lambda>(name, var, method). var) steps_vars);
             total_steps = max 1 (length selected_steps);
             g2 = g1\<lparr>progress_maximum := real total_steps\<rparr>;
             g3 = ui_progress 0 g2
         in run_step selected_steps 0 g3))"

section \<open>Observations used in the statements\<close>

text \<open>
  The directories \<open>set_cuda_paths\<close> prepends on a host: the existing wheel directories
  on Windows, none on another platform or when the probe raises.
\<close>

definition cuda_dirs :: "host \<Rightarrow> string list" where
  "cuda_dirs h =
     (if os_name h \<noteq> ''nt'' then []
      else (case nvidia_candidates h of
              Inl e \<Rightarrow> []
            | Inr candidates \<Rightarrow> (case existing_dirs h candidates of Inl e \<Rightarrow> [] | Inr ds \<Rightarrow> ds)))"

text \<open>The lines a call appended to the log, and the constructor calls it added.\<close>

definition new_log :: "world \<Rightarrow> world \<Rightarrow> string list" where
  "new_log w w' = drop (length (log w)) (log w')"

definition new_calls :: "world \<Rightarrow> world \<Rightarrow> (string \<times> string \<times> string) list" where
  "new_calls w w' = drop (length (whisper_calls w)) (whisper_calls w')"

text \<open>The kinds of log line, told by the fixed text they start with.\<close>

definition is_substitution_warning :: "string \<Rightarrow> bool" where
  "is_substitution_warning l = prefix ''[WARN] Whisper model '' l"

definition is_init_failed_warning :: "string \<Rightarrow> bool" where
  "is_init_failed_warning l = prefix ''[WARN] Model init failed with '' l"

definition is_error_line :: "string \<Rightarrow> bool" where
  "is_error_line l = prefix ''[ERROR]'' l"

definition is_memory_warning :: "string \<Rightarrow> bool" where
  "is_memory_warning l = (l = memory_fallback_warning)"

definition plain_line :: "string \<Rightarrow> bool" where
  "plain_line l = (\<not> is_substitution_warning l \<and> \<not> is_init_failed_warning l \<and> \<not> is_error_line l)"

text \<open>
  What the \<open>try\<close> block of one file ends with: the exception raised in it, or the
  transcript it wrote. \<open>file_line\<close> is the line the file leaves in the log.
\<close>

definition transcript_result :: "host \<Rightarrow> whisper \<Rightarrow> path \<Rightarrow> path \<Rightarrow> error + string" where
  "transcript_result h model output_dir wav_file =
     (case whisper_transcribe h model (path_str (os_sep h) wav_file) of
        Inl e \<Rightarrow> Inl e
      | Inr segments \<Rightarrow>
          (case write_error h (out_path_of output_dir wav_file) of
             Some e \<Rightarrow> Inl e
           | None \<Rightarrow> Inr (strip (join '' '' segments))))"

definition file_line :: "host \<Rightarrow> whisper \<Rightarrow> path \<Rightarrow> path \<Rightarrow> string" where
  "file_line h model output_dir wav_file =
     (case transcript_result h model output_dir wav_file of
        Inl e \<Rightarrow> transcribe_failed_error (path_name wav_file) e
      | Inr transcript \<Rightarrow>
          transcribed_info (path_name wav_file) (path_name (out_path_of output_dir wav_file))
            (length transcript))"

text \<open>
  A string that \<open>strip\<close> leaves as it is; and the bound on a chunk made of the group
  \<open>g\<close> of sentences.
\<close>

definition stripped :: "string \<Rightarrow> bool" where
  "stripped s = (s = [] \<or> (\<not> is_space (hd s) \<and> \<not> is_space (last s)))"

definition chunk_ok :: "int \<Rightarrow> string list \<Rightarrow> bool" where
  "chunk_ok m g = (g \<noteq> [] \<and> (int (length (join '' '' g)) \<le> m + 1 \<or> (\<exists>s. g = [s] \<and> m < int (length s))))"

section \<open>Concrete hosts\<close>

text \<open>A Windows host with a CUDA build of torch and no NVIDIA wheel directory.\<close>

definition host_no_wheels :: host where
  "host_no_wheels =
     \<lparr> os_name = ''nt'',
       sys_executable = Some (Path (''C:'' @ [CHR 0x5C]) [''venv'', ''Scripts'', ''python.exe'']),
       path_exists = (\<lambda>p. Inr False),
       torch_cuda_is_available = Inr True,
       torch_total_memory = Inr (8 * 2 ^ 30),
       py_repr = (\<lambda>xs. join '', '' xs),
       whisper_installed = True,
       whisper_init_error = (\<lambda>m d c. None),
       whisper_transcribe = (\<lambda>m f. Inr []),
       glob_wav = (\<lambda>d. []),
       mkdir_error = (\<lambda>d. None),
       write_error = (\<lambda>p. None) \<rparr>"

text \<open>
  A world with a search path and nothing logged, called or written yet; a Windows host
  whose cublas wheel directory exists and where \<open>float16\<close> cannot be loaded; a host
  without CUDA where no compute type loads, with three recordings of which \<open>b.wav\<close>
  cannot be transcribed.
\<close>

definition world0 :: world where
  "world0 = \<lparr> environ = [''PATH'' \<mapsto> ''C:/Windows''], log = [], whisper_calls = [], files = Map.empty \<rparr>"

definition host_gpu :: host where
  "host_gpu = host_no_wheels
     \<lparr> path_exists := (\<lambda>p. Inr (path_name (parent p) = ''cublas'')),
       whisper_init_error :=
         (\<lambda>m d c. if c = ''float16'' then Some (LibraryError ''float16 unsupported'') else None) \<rparr>"

definition host_cpu :: host where
  "host_cpu = host_no_wheels
     \<lparr> os_name := ''posix'',
       torch_cuda_is_available := Inr False,
       whisper_init_error := (\<lambda>m d c. Some (LibraryError (''no '' @ c))),
       whisper_transcribe :=
         (\<lambda>m f. if f = ''/in/b.wav'' then Inl (LibraryError ''corrupt audio'')
                 else Inr ['' Hallo'', ''Welt '']),
       glob_wav := (\<lambda>d. [''c.wav'', ''a.wav'', ''b.wav'']) \<rparr>"

text \<open>The same host where \<open>int8\<close> cannot be loaded and \<open>float32\<close> can.\<close>

definition host_cpu_float32 :: host where
  "host_cpu_float32 = host_cpu
     \<lparr> whisper_init_error :=
         (\<lambda>m d c. if c = ''int8'' then Some (LibraryError ''int8 unsupported'') else None) \<rparr>"

text \<open>The text of the cublas directory of that host, and two directories for recordings.\<close>

definition cublas_bin :: string where
  "cublas_bin =
     ''C:'' @ join [CHR 0x5C] [[], ''venv'', ''Lib'', ''site-packages'', ''nvidia'', ''cublas'', ''bin'']"

definition dir_in :: path where "dir_in = Path ''/'' [''in'']"

definition dir_out :: path where "dir_out = Path ''/'' [''out'']"

text \<open>
  Hosts with CUDA and 8 GiB, with 24 GiB, and with a memory query that raises; a
  transformers library that loads every model and echoes each chunk; an empty session, a
  translator, a window with the acknowledgement not given and three stages of which two
  are selected.
\<close>

definition host_8gib :: host where
  "host_8gib = host_no_wheels"

definition host_24gib :: host where
  "host_24gib = host_no_wheels \<lparr> torch_total_memory := Inr (24 * 2 ^ 30) \<rparr>"

definition host_broken_query :: host where
  "host_broken_query = host_no_wheels \<lparr> torch_total_memory := Inl (LibraryError ''CUDA driver error'') \<rparr>"

definition lib_ok :: nllb_lib where
  "lib_ok = \<lparr> nllb_load_error = (\<lambda>name dev. None),
              nllb_tokenize_error = (\<lambda>chunk. None),
              nllb_generate = (\<lambda>src tgt chunk. Inr chunk) \<rparr>"

definition session0 :: session where
  "session0 = \<lparr> s_environ = Map.empty, s_lines = [], s_src_lang = None, s_generate_calls = [] \<rparr>"

definition translator0 :: translator where
  "translator0 = \<lparr> tr_source_lang = ''deu_Latn'', tr_target_lang = ''eng_Latn'',
                    tr_device = ''cpu'', tr_model_name = DEFAULT_MODEL_SMALL \<rparr>"

definition gui0 :: gui where
  "gui0 = \<lparr> acknowledge_var = False, progress_value = 0, progress_maximum = 100,
            log_text = [], output_text = [], file_log = [], invoked = [] \<rparr>"

definition steps0 :: "(string \<times> bool \<times> step) list" where
  "steps0 =
     [(''Extract Slide Text (.txt)'', False,
         Step ''Extract Slide Text'' (\<lambda>g. (None, g))),
      (''Transcribe'', True,
         Step ''Transcribe Audio'' (\<lambda>g. (Some (LibraryError ''no audio''), g))),
      (''Translate Audio Transcripts'', True,
         Step ''Translate Audio Transcripts'' (\<lambda>g. (None, g)))]"

section \<open>Device selection: the two checks\<close>

text \<open>
  C2. The claim: the accelerator is selected only when torch reports CUDA available and
  the CUDA wheel directories are discoverable. On the code: with torch reporting CUDA and
  no wheel directory on the machine, \<open>_cuda_wheels_present\<close> is false and
  \<open>_select_device_and_compute\<close> still answers \<open>cuda\<close> with \<open>float16\<close>; it reads the answer
  of torch alone.
\<close>

theorem select_device_ignores_wheels:
  "cuda_wheels_present host_no_wheels = False \<and>
   torch_cuda_available host_no_wheels = True \<and>
   select_device_and_compute host_no_wheels ''medium'' = (''cuda'', ''float16'')"
  by (simp add: cuda_wheels_present_def torch_cuda_available_def select_device_and_compute_def
      host_no_wheels_def nvidia_candidates_def Let_def)

section \<open>The concrete hosts, evaluated\<close>

lemma host_gpu_fields:
  "os_name host_gpu = ''nt''"
  "whisper_installed host_gpu"
  "torch_cuda_available host_gpu"
  "select_device_and_compute host_gpu m = (''cuda'', ''float16'')"
  "whisper_init_error host_gpu m d c =
     (if c = ''float16'' then Some (LibraryError ''float16 unsupported'') else None)"
  "os_pathsep host_gpu = '';''"
  by (simp_all add: host_gpu_def host_no_wheels_def torch_cuda_available_def
      select_device_and_compute_def os_pathsep_def Let_def)

lemma host_gpu_candidates:
  "nvidia_candidates host_gpu =
     Inr [Path (''C:'' @ [CHR 0x5C]) [''venv'', ''Lib'', ''site-packages'', ''nvidia'', ''cuda_runtime'', ''bin''],
          Path (''C:'' @ [CHR 0x5C]) [''venv'', ''Lib'', ''site-packages'', ''nvidia'', ''cublas'', ''bin''],
          Path (''C:'' @ [CHR 0x5C]) [''venv'', ''Lib'', ''site-packages'', ''nvidia'', ''cudnn'', ''bin'']]"
  by (simp add: host_gpu_def host_no_wheels_def nvidia_candidates_def Let_def
      parent_def joinpath_def)

lemma host_gpu_exists:
  "path_exists host_gpu (Path a [v, l, s, n, k, b]) = Inr (k = ''cublas'')"
  by (simp add: host_gpu_def parent_def path_name_def)

lemma host_gpu_dirs: "cuda_dirs host_gpu = [cublas_bin]"
  by (simp add: cuda_dirs_def host_gpu_fields host_gpu_candidates host_gpu_exists
      path_str_def os_sep_def cublas_bin_def)

lemma host_cpu_fields:
  "whisper_installed host_cpu"
  "\<not> torch_cuda_available host_cpu"
  "select_device_and_compute host_cpu m = (''cpu'', ''int8'')"
  "whisper_init_error host_cpu m d c = Some (LibraryError (''no '' @ c))"
  by (simp_all add: host_cpu_def host_no_wheels_def torch_cuda_available_def
      select_device_and_compute_def Let_def)

lemma host_cpu_out_paths:
  "out_path_of dir_out (Path ''/'' [''in'', ''a.wav'']) = Path ''/'' [''out'', ''a.txt'']"
  "out_path_of dir_out (Path ''/'' [''in'', ''c.wav'']) = Path ''/'' [''out'', ''c.txt'']"
  by (simp_all add: out_path_of_def dir_out_def joinpath_def path_name_def stem_def rfind_dot_def)

lemma host_memory_fields:
  "torch_cuda_is_available host_8gib = Inr True"
  "torch_total_memory host_8gib = Inr (8 * 2 ^ 30)"
  "torch_cuda_is_available host_24gib = Inr True"
  "torch_total_memory host_24gib = Inr (24 * 2 ^ 30)"
  "torch_cuda_is_available host_broken_query = Inr True"
  "torch_total_memory host_broken_query = Inl (LibraryError ''CUDA driver error'')"
  by (simp_all add: host_8gib_def host_24gib_def host_broken_query_def host_no_wheels_def)

lemma host_devices:
  "choose_device host_8gib = Inr ''cuda''"
  "choose_device host_24gib = Inr ''cuda''"
  "cuda_total_gib host_8gib = 8"
  "cuda_total_gib host_24gib = 24"
  by (simp_all add: choose_device_def cuda_total_gib_def host_memory_fields)

section \<open>The transcriber: lemmas\<close>

lemma safe_log_simps:
  "log (safe_log m w) = log w @ [m]"
  "environ (safe_log m w) = environ w"
  "whisper_calls (safe_log m w) = whisper_calls w"
  "files (safe_log m w) = files w"
  by (simp_all add: safe_log_def)

lemma set_if_absent_simps:
  "log (set_if_absent k v w) = log w"
  "whisper_calls (set_if_absent k v w) = whisper_calls w"
  "files (set_if_absent k v w) = files w"
  "environ (set_if_absent k v w) k' =
     (if k' = k \<and> environ w k = None then Some v else environ w k')"
  by (auto simp add: set_if_absent_def domIff)

lemma set_cuda_paths_total: "\<exists>w'. set_cuda_paths h w = Inr w'"
  by (simp add: set_cuda_paths_def split: sum.splits)

lemma cuda_dirs_nt: "cuda_dirs h \<noteq> [] \<Longrightarrow> os_name h = ''nt''"
  by (simp add: cuda_dirs_def split: if_splits)

lemma set_cuda_paths_noop:
  "cuda_dirs h = [] \<Longrightarrow> set_cuda_paths h w = Inr w' \<Longrightarrow> environ w' = environ w"
  by (auto simp add: set_cuda_paths_def set_cuda_paths_try_def cuda_dirs_def safe_log_simps
      split: sum.splits if_splits)

lemma set_cuda_paths_dirs:
  assumes "cuda_dirs h \<noteq> []"
  shows "set_cuda_paths h w =
     Inr (safe_log (paths_appended_info h (cuda_dirs h))
           (set_if_absent ''CUDA_PATH_V12_4'' (join (os_pathsep h) (cuda_dirs h))
             (set_if_absent ''CUDA_PATH'' (join (os_pathsep h) (cuda_dirs h))
               (w\<lparr>environ := (environ w)(''PATH'' \<mapsto>
                    join (os_pathsep h) (cuda_dirs h @
                      (if (case environ w ''PATH'' of None \<Rightarrow> [] | Some v \<Rightarrow> v) \<noteq> []
                       then [case environ w ''PATH'' of None \<Rightarrow> [] | Some v \<Rightarrow> v] else [])))\<rparr>))))"
proof -
  have nt: "os_name h = ''nt''" using assms by (rule cuda_dirs_nt)
  obtain cs where cs: "nvidia_candidates h = Inr cs"
    using assms nt by (cases "nvidia_candidates h") (simp_all add: cuda_dirs_def)
  have ds: "existing_dirs h cs = Inr (cuda_dirs h)"
    using assms nt cs by (cases "existing_dirs h cs") (simp_all add: cuda_dirs_def)
  show ?thesis
    using assms nt by (simp add: set_cuda_paths_def set_cuda_paths_try_def cs ds Let_def)
qed

lemma set_cuda_paths_env:
  assumes "cuda_dirs h \<noteq> []" and "set_cuda_paths h w = Inr w'"
  shows "environ w' k =
     (if k = ''PATH'' then
        Some (join (os_pathsep h) (cuda_dirs h @
               (case environ w ''PATH'' of None \<Rightarrow> [] | Some v \<Rightarrow> if v \<noteq> [] then [v] else [])))
      else if (k = ''CUDA_PATH'' \<or> k = ''CUDA_PATH_V12_4'') \<and> environ w k = None
        then Some (join (os_pathsep h) (cuda_dirs h))
      else environ w k)"
proof -
  have "w' = safe_log (paths_appended_info h (cuda_dirs h))
           (set_if_absent ''CUDA_PATH_V12_4'' (join (os_pathsep h) (cuda_dirs h))
             (set_if_absent ''CUDA_PATH'' (join (os_pathsep h) (cuda_dirs h))
               (w\<lparr>environ := (environ w)(''PATH'' \<mapsto>
                    join (os_pathsep h) (cuda_dirs h @
                      (if (case environ w ''PATH'' of None \<Rightarrow> [] | Some v \<Rightarrow> v) \<noteq> []
                       then [case environ w ''PATH'' of None \<Rightarrow> [] | Some v \<Rightarrow> v] else [])))\<rparr>)))"
    using assms set_cuda_paths_dirs [OF assms(1), of w] by simp
  then show ?thesis
    by (cases "environ w ''PATH''") (auto simp add: safe_log_simps set_if_absent_simps)
qed

lemma join_Cons_nonempty: "x \<noteq> [] \<Longrightarrow> join sep (x # xs) \<noteq> []"
  by (cases xs) simp_all

lemma join_snoc_nonempty: "x \<noteq> [] \<Longrightarrow> join sep (xs @ [x]) \<noteq> []"
  by (induction sep xs rule: join.induct) simp_all

lemma path_str_joinpath_nonempty: "name \<noteq> [] \<Longrightarrow> path_str sep (joinpath p name) \<noteq> []"
  by (simp add: path_str_def joinpath_def join_snoc_nonempty)

lemma existing_dirs_subset:
  "existing_dirs h cs = Inr ds \<Longrightarrow> set ds \<subseteq> path_str (os_sep h) ` set cs"
proof (induction cs arbitrary: ds)
  case Nil
  then show ?case by simp
next
  case (Cons c cs)
  then show ?case
    by (auto split: sum.splits if_splits)
qed

lemma cuda_dirs_nonempty: "d \<in> set (cuda_dirs h) \<Longrightarrow> d \<noteq> []"
proof -
  assume d: "d \<in> set (cuda_dirs h)"
  then have ne: "cuda_dirs h \<noteq> []" by auto
  then have nt: "os_name h = ''nt''" by (rule cuda_dirs_nt)
  obtain cs where cs: "nvidia_candidates h = Inr cs"
    using ne nt by (cases "nvidia_candidates h") (simp_all add: cuda_dirs_def)
  have ds: "existing_dirs h cs = Inr (cuda_dirs h)"
    using ne nt cs by (cases "existing_dirs h cs") (simp_all add: cuda_dirs_def)
  have all: "\<forall>c \<in> set cs. path_str (os_sep h) c \<noteq> []"
    using cs by (auto simp add: nvidia_candidates_def Let_def path_str_joinpath_nonempty
        split: option.splits)
  from existing_dirs_subset [OF ds] d obtain c where c: "c \<in> set cs" "d = path_str (os_sep h) c"
    by auto
  with all show ?thesis by simp
qed

lemma set_cuda_paths_PATH_nonempty:
  assumes "cuda_dirs h \<noteq> []" and "set_cuda_paths h w = Inr w'"
  shows "\<exists>p. environ w' ''PATH'' = Some p \<and> p \<noteq> []"
proof -
  obtain d ds where dd: "cuda_dirs h = d # ds" using assms(1) by (cases "cuda_dirs h") auto
  then have "d \<noteq> []" using cuda_dirs_nonempty [of d h] by simp
  then show ?thesis
    using set_cuda_paths_env [OF assms, of "''PATH''"] dd by (simp add: join_Cons_nonempty)
qed

lemma line_kinds [simp]:
  "\<not> is_substitution_warning (paths_appended_info h ds)"
  "\<not> is_substitution_warning (paths_failed_warning e)"
  "\<not> is_substitution_warning (loading_info m d c)"
  "\<not> is_substitution_warning (init_failed_warning m d c e)"
  "is_substitution_warning (substitution_warning r)"
  "\<not> is_init_failed_warning (paths_appended_info h ds)"
  "\<not> is_init_failed_warning (paths_failed_warning e)"
  "\<not> is_init_failed_warning (loading_info m d c)"
  "is_init_failed_warning (init_failed_warning m d c e)"
  "\<not> is_init_failed_warning (substitution_warning r)"
  by (simp_all add: is_substitution_warning_def is_init_failed_warning_def
      paths_appended_info_def paths_failed_warning_def loading_info_def
      init_failed_warning_def substitution_warning_def)

lemma try_candidates_fst:
  "fst (try_candidates h m d cs last_err w) =
     (case dropWhile (\<lambda>c. whisper_init_error h m d c \<noteq> None) cs of
        c # _ \<Rightarrow> Inr (WhisperModel m d c)
      | [] \<Rightarrow> Inl (last (last_err # map (whisper_init_error h m d) cs)))"
proof (induction cs arbitrary: last_err w)
  case Nil
  then show ?case by simp
next
  case (Cons c cs)
  show ?case
  proof (cases "whisper_init_error h m d c")
    case None
    then show ?thesis by (simp add: Let_def)
  next
    case (Some e)
    then show ?thesis
      by (simp add: Let_def Cons.IH cong del: list.case_cong_weak)
  qed
qed

lemma try_candidates_calls:
  "whisper_calls (snd (try_candidates h m d cs last_err w)) =
     whisper_calls w @ map (\<lambda>c. (m, d, c))
       (takeWhile (\<lambda>c. whisper_init_error h m d c \<noteq> None) cs
        @ take 1 (dropWhile (\<lambda>c. whisper_init_error h m d c \<noteq> None) cs))"
proof (induction cs arbitrary: last_err w)
  case Nil
  then show ?case by simp
next
  case (Cons c cs)
  show ?case
  proof (cases "whisper_init_error h m d c")
    case None
    then show ?thesis by (simp add: Let_def safe_log_simps)
  next
    case (Some e)
    then show ?thesis
      by (simp add: Let_def Cons.IH safe_log_simps)
  qed
qed

lemma try_candidates_log:
  "log (snd (try_candidates h m d cs last_err w)) =
     log w
     @ concat (map (\<lambda>c. [loading_info m d c,
                          init_failed_warning m d c (the (whisper_init_error h m d c))])
                 (takeWhile (\<lambda>c. whisper_init_error h m d c \<noteq> None) cs))
     @ map (loading_info m d) (take 1 (dropWhile (\<lambda>c. whisper_init_error h m d c \<noteq> None) cs))"
proof (induction cs arbitrary: last_err w)
  case Nil
  then show ?case by simp
next
  case (Cons c cs)
  show ?case
  proof (cases "whisper_init_error h m d c")
    case None
    then show ?thesis by (simp add: Let_def safe_log_simps)
  next
    case (Some e)
    then show ?thesis
      by (simp add: Let_def Cons.IH safe_log_simps)
  qed
qed

lemma try_candidates_rest:
  "environ (snd (try_candidates h m d cs last_err w)) = environ w \<and>
   files (snd (try_candidates h m d cs last_err w)) = files w"
proof (induction cs arbitrary: last_err w)
  case Nil
  then show ?case by simp
next
  case (Cons c cs)
  show ?case
    by (cases "whisper_init_error h m d c") (simp_all add: Let_def Cons.IH safe_log_simps)
qed

lemma new_log_append: "log w' = log w @ ls \<Longrightarrow> new_log w w' = ls"
  by (simp add: new_log_def)

lemma new_calls_append: "whisper_calls w' = whisper_calls w @ cs \<Longrightarrow> new_calls w w' = cs"
  by (simp add: new_calls_def)

lemma paths_lines_no_error:
  "\<not> is_error_line (paths_appended_info h ds)"
  "\<not> is_error_line (paths_failed_warning e)"
  by (simp_all add: is_error_line_def paths_appended_info_def paths_failed_warning_def)

lemma paths_lines_plain [simp]:
  "plain_line (paths_appended_info h ds)"
  "plain_line (paths_failed_warning e)"
  by (simp_all add: plain_line_def paths_lines_no_error)

lemma set_cuda_paths_frame:
  assumes "set_cuda_paths h w = Inr w'"
  shows "whisper_calls w' = whisper_calls w \<and> files w' = files w \<and>
         (\<exists>ls. log w' = log w @ ls \<and> (\<forall>l \<in> set ls. plain_line l))"
proof (cases "cuda_dirs h = []")
  case False
  show ?thesis
    using assms unfolding set_cuda_paths_dirs [OF False]
    by (auto simp add: safe_log_simps set_if_absent_simps)
next
  case True
  show ?thesis
  proof (cases "os_name h = ''nt''")
    case nt: True
    show ?thesis
    proof (cases "set_cuda_paths_try h w")
      case (Inl e)
      then show ?thesis using assms nt by (auto simp add: set_cuda_paths_def safe_log_simps)
    next
      case (Inr w1)
      then have "w1 = w"
        using True nt
        by (auto simp add: set_cuda_paths_try_def cuda_dirs_def split: sum.splits if_splits)
      then show ?thesis using assms nt Inr by (simp add: set_cuda_paths_def)
    qed
  next
    case False
    then show ?thesis using assms by (simp add: set_cuda_paths_def)
  qed
qed

lemma init_model_installed:
  assumes "whisper_installed h"
    and "requested = (if model_size \<noteq> [] then model_size else DEFAULT_WHISPER_MODEL)"
    and "device = fst (select_device_and_compute h requested)"
    and "preferred = snd (select_device_and_compute h requested)"
    and "unsafe = (device = ''cuda'' \<and> requested \<in> UNSAFE_LARGE_MODELS)"
    and "effective = (if unsafe then DEFAULT_WHISPER_MODEL else requested)"
  shows "\<exists>w2 pl. (\<forall>l \<in> set pl. plain_line l) \<and>
           log w2 = log w @ (if unsafe then [substitution_warning requested] else []) @ pl \<and>
           whisper_calls w2 = whisper_calls w \<and> files w2 = files w \<and>
           snd (init_model h model_size w) =
             snd (try_candidates h effective device (compute_candidates device preferred) None w2) \<and>
           fst (init_model h model_size w) =
             (case fst (try_candidates h effective device (compute_candidates device preferred) None w2) of
                Inr model \<Rightarrow> Inr model
              | Inl last_err \<Rightarrow> Inl (init_failure requested device last_err))"
proof -
  define w1 where "w1 = (if unsafe then safe_log (substitution_warning requested) w else w)"
  obtain w2 where w2: "(if device = ''cuda'' then set_cuda_paths h w1 else Inr w1) = Inr w2"
    using set_cuda_paths_total [of h w1] by (cases "device = ''cuda''") auto
  have frame: "whisper_calls w2 = whisper_calls w1 \<and> files w2 = files w1 \<and>
         (\<exists>ls. log w2 = log w1 @ ls \<and> (\<forall>l \<in> set ls. plain_line l))"
    using w2 set_cuda_paths_frame [of h w1 w2] by (cases "device = ''cuda''") auto
  then obtain pl where pl: "log w2 = log w1 @ pl" "\<forall>l \<in> set pl. plain_line l" by blast
  have l1: "log w1 = log w @ (if unsafe then [substitution_warning requested] else [])"
    and c1: "whisper_calls w1 = whisper_calls w" and f1: "files w1 = files w"
    by (simp_all add: w1_def safe_log_simps)
  have run: "init_model h model_size w =
      (case try_candidates h effective device (compute_candidates device preferred) None w2 of
         (Inr model, w3) \<Rightarrow> (Inr model, w3)
       | (Inl last_err, w3) \<Rightarrow> (Inl (init_failure requested device last_err), w3))"
    using assms(1) w2
    unfolding init_model_def Let_def assms(2-6) [symmetric] w1_def [symmetric]
    by simp
  have "snd (init_model h model_size w) =
             snd (try_candidates h effective device (compute_candidates device preferred) None w2)"
    unfolding run by (simp split: prod.splits sum.splits)
  moreover have "fst (init_model h model_size w) =
             (case fst (try_candidates h effective device (compute_candidates device preferred) None w2) of
                Inr model \<Rightarrow> Inr model
              | Inl last_err \<Rightarrow> Inl (init_failure requested device last_err))"
    unfolding run by (simp split: prod.splits sum.splits)
  ultimately show ?thesis
    using pl l1 c1 f1 frame by (intro exI [of _ w2] exI [of _ pl]) simp
qed

lemma filter_none: "\<forall>x \<in> set xs. \<not> P x \<Longrightarrow> filter P xs = []"
  by (induction xs) simp_all


lemma filter_cascade_subst:
  "filter is_substitution_warning
     (concat (map (\<lambda>c. [loading_info m d c, init_failed_warning m d c (e c)]) fs)) = []"
  by (induction fs) simp_all

lemma filter_loading:
  "filter is_init_failed_warning (map (loading_info m d) cs) = []"
  "filter is_substitution_warning (map (loading_info m d) cs) = []"
  by (induction cs) simp_all

lemma filter_plain:
  assumes "\<forall>l \<in> set pl. plain_line l"
  shows "filter is_init_failed_warning pl = []" and "filter is_substitution_warning pl = []"
    and "filter is_error_line pl = []"
  using assms by (simp_all add: filter_none plain_line_def)

lemma last_errors:
  "cs \<noteq> [] \<Longrightarrow> last (x # map f cs) = f (last cs)"
  by (simp add: last_map)

lemma candidates_tried_nonempty:
  "cs \<noteq> [] \<Longrightarrow> takeWhile P cs @ take 1 (dropWhile P cs) \<noteq> []"
  by (cases cs) auto

lemma init_model_run:
  assumes "whisper_installed h"
    and "requested = (if model_size \<noteq> [] then model_size else DEFAULT_WHISPER_MODEL)"
    and "device = fst (select_device_and_compute h requested)"
    and "preferred = snd (select_device_and_compute h requested)"
    and "unsafe = (device = ''cuda'' \<and> requested \<in> UNSAFE_LARGE_MODELS)"
    and "effective = (if unsafe then DEFAULT_WHISPER_MODEL else requested)"
    and "candidates = preferred # ''float32'' # (if device = ''cuda'' then [''int8''] else [])"
    and "fails = (\<lambda>c. whisper_init_error h effective device c \<noteq> None)"
    and "r = init_model h model_size w"
  shows "\<exists>pl. (\<forall>l \<in> set pl. plain_line l) \<and>
           new_log w (snd r) =
             (if unsafe then [substitution_warning requested] else []) @ pl
             @ concat (map (\<lambda>c. [loading_info effective device c,
                                  init_failed_warning effective device c
                                    (the (whisper_init_error h effective device c))])
                         (takeWhile fails candidates))
             @ map (loading_info effective device) (take 1 (dropWhile fails candidates)) \<and>
           new_calls w (snd r) =
             map (\<lambda>c. (effective, device, c))
               (takeWhile fails candidates @ take 1 (dropWhile fails candidates)) \<and>
           fst r =
             (case dropWhile fails candidates of
                c # _ \<Rightarrow> Inr (WhisperModel effective device c)
              | [] \<Rightarrow> Inl (init_failure requested device
                            (whisper_init_error h effective device (last candidates))))"
proof -
  have cs: "compute_candidates device preferred = candidates"
    using assms(7) by (simp add: compute_candidates_def)
  have ne: "candidates \<noteq> []" using assms(7) by simp
  obtain w2 pl where pl: "\<forall>l \<in> set pl. plain_line l"
    and l2: "log w2 = log w @ (if unsafe then [substitution_warning requested] else []) @ pl"
    and c2: "whisper_calls w2 = whisper_calls w"
    and s: "snd r = snd (try_candidates h effective device candidates None w2)"
    and f: "fst r = (case fst (try_candidates h effective device candidates None w2) of
                Inr model \<Rightarrow> Inr model
              | Inl last_err \<Rightarrow> Inl (init_failure requested device last_err))"
    using init_model_installed [OF assms(1) assms(2) assms(3) assms(4) assms(5) assms(6), of w]
    unfolding cs assms(9) by blast
  have calls: "new_calls w (snd r) =
           map (\<lambda>c. (effective, device, c))
             (takeWhile fails candidates @ take 1 (dropWhile fails candidates))"
    unfolding s assms(8) by (rule new_calls_append) (simp add: try_candidates_calls c2)
  have lines: "new_log w (snd r) =
      (if unsafe then [substitution_warning requested] else []) @ pl
      @ concat (map (\<lambda>c. [loading_info effective device c,
                          init_failed_warning effective device c
                            (the (whisper_init_error h effective device c))])
                 (takeWhile fails candidates))
      @ map (loading_info effective device) (take 1 (dropWhile fails candidates))"
    unfolding s assms(8) by (rule new_log_append) (simp add: try_candidates_log l2)
  have res: "fst r =
           (case dropWhile fails candidates of
              c # _ \<Rightarrow> Inr (WhisperModel effective device c)
            | [] \<Rightarrow> Inl (init_failure requested device
                          (whisper_init_error h effective device (last candidates))))"
  proof -
    have tf: "fst (try_candidates h effective device candidates None w2) =
        (case dropWhile fails candidates of
           c # _ \<Rightarrow> Inr (WhisperModel effective device c)
         | [] \<Rightarrow> Inl (whisper_init_error h effective device (last candidates)))"
      unfolding try_candidates_fst last_errors [OF ne] by (simp add: assms(8))
    show ?thesis
    proof (cases "dropWhile fails candidates")
      case Nil
      show ?thesis unfolding f tf Nil by simp
    next
      case (Cons c rest)
      show ?thesis unfolding f tf Cons by simp
    qed
  qed
  from pl lines calls res show ?thesis by blast
qed

section \<open>Model initialisation\<close>



text \<open>
  C5. For a requested variant in \<open>UNSAFE_LARGE_MODELS\<close>: on \<open>cuda\<close> the log gets exactly
  one substitution warning, every constructor call and the model returned are on
  \<open>medium\<close>; on the other device, which is \<open>cpu\<close>, there is no substitution warning and
  every constructor call and the model returned are on the requested variant.
\<close>

theorem unsafe_large_model_substitution:
  assumes "whisper_installed h" and "model_size \<in> UNSAFE_LARGE_MODELS"
    and "device = fst (select_device_and_compute h model_size)"
    and "r = init_model h model_size w"
  shows "(device = ''cuda'' \<longrightarrow>
            filter is_substitution_warning (new_log w (snd r)) = [substitution_warning model_size] \<and>
            new_calls w (snd r) \<noteq> [] \<and>
            (\<forall>call \<in> set (new_calls w (snd r)). fst call = DEFAULT_WHISPER_MODEL) \<and>
            (\<forall>m. fst r = Inr m \<longrightarrow> w_model m = DEFAULT_WHISPER_MODEL)) \<and>
         (device \<noteq> ''cuda'' \<longrightarrow>
            device = ''cpu'' \<and>
            filter is_substitution_warning (new_log w (snd r)) = [] \<and>
            new_calls w (snd r) \<noteq> [] \<and>
            (\<forall>call \<in> set (new_calls w (snd r)). fst call = model_size) \<and>
            (\<forall>m. fst r = Inr m \<longrightarrow> w_model m = model_size))"
proof -
  define unsafe where "unsafe = (device = ''cuda'' \<and> model_size \<in> UNSAFE_LARGE_MODELS)"
  define effective where "effective = (if unsafe then DEFAULT_WHISPER_MODEL else model_size)"
  define preferred where "preferred = snd (select_device_and_compute h model_size)"
  define candidates where
    "candidates = preferred # ''float32'' # (if device = ''cuda'' then [''int8''] else [])"
  define fails where "fails = (\<lambda>c. whisper_init_error h effective device c \<noteq> None)"
  have ms: "model_size \<noteq> []" using assms(2) by (auto simp add: UNSAFE_LARGE_MODELS_def)
  then have req: "model_size = (if model_size \<noteq> [] then model_size else DEFAULT_WHISPER_MODEL)"
    by simp
  have dev: "device = fst (select_device_and_compute h
                 (if model_size \<noteq> [] then model_size else DEFAULT_WHISPER_MODEL))"
    and pref: "preferred = snd (select_device_and_compute h
                 (if model_size \<noteq> [] then model_size else DEFAULT_WHISPER_MODEL))"
    using ms assms(3) preferred_def by simp_all
  have uns: "unsafe = (device = ''cuda'' \<and>
      (if model_size \<noteq> [] then model_size else DEFAULT_WHISPER_MODEL) \<in> UNSAFE_LARGE_MODELS)"
    and eff: "effective = (if unsafe then DEFAULT_WHISPER_MODEL
        else (if model_size \<noteq> [] then model_size else DEFAULT_WHISPER_MODEL))"
    using ms unsafe_def effective_def by simp_all
  obtain pl where pl: "\<forall>l \<in> set pl. plain_line l"
    and lines: "new_log w (snd r) =
      (if unsafe then [substitution_warning model_size] else []) @ pl
      @ concat (map (\<lambda>c. [loading_info effective device c,
                          init_failed_warning effective device c
                            (the (whisper_init_error h effective device c))])
                 (takeWhile fails candidates))
      @ map (loading_info effective device) (take 1 (dropWhile fails candidates))"
    and calls: "new_calls w (snd r) =
           map (\<lambda>c. (effective, device, c))
             (takeWhile fails candidates @ take 1 (dropWhile fails candidates))"
    and res: "fst r =
           (case dropWhile fails candidates of
              c # _ \<Rightarrow> Inr (WhisperModel effective device c)
            | [] \<Rightarrow> Inl (init_failure model_size device
                          (whisper_init_error h effective device (last candidates))))"
    using init_model_run [OF assms(1) refl dev pref uns eff candidates_def fails_def assms(4)] ms
    by auto
  have ne: "new_calls w (snd r) \<noteq> []"
    unfolding calls by (simp add: candidates_tried_nonempty candidates_def)
  have all: "\<forall>call \<in> set (new_calls w (snd r)). fst call = effective"
    unfolding calls by auto
  have model: "\<forall>m. fst r = Inr m \<longrightarrow> w_model m = effective"
  proof (cases "dropWhile fails candidates")
    case Nil
    show ?thesis unfolding res Nil by simp
  next
    case (Cons c rest)
    show ?thesis unfolding res Cons by auto
  qed
  have subst: "filter is_substitution_warning (new_log w (snd r)) =
      (if unsafe then [substitution_warning model_size] else [])"
    unfolding lines by (simp add: filter_plain [OF pl] filter_cascade_subst filter_loading)
  have cpu: "device \<noteq> ''cuda'' \<longrightarrow> device = ''cpu''"
    using assms(3) by (simp add: select_device_and_compute_def Let_def split: if_splits)
  have u: "unsafe = (device = ''cuda'')" using assms(2) by (simp add: unsafe_def)
  show ?thesis
    using ne all model subst cpu by (simp add: u effective_def)
qed

theorem unsafe_large_model_substitution_witness:
  "filter is_substitution_warning (new_log world0 (snd (init_model host_gpu ''large-v2'' world0))) =
     [substitution_warning ''large-v2''] \<and>
   new_calls world0 (snd (init_model host_gpu ''large-v2'' world0)) \<noteq> [] \<and>
   filter is_substitution_warning (new_log world0 (snd (init_model host_cpu ''large'' world0))) = [] \<and>
   new_calls world0 (snd (init_model host_cpu ''large'' world0)) \<noteq> []"
proof -
  have a: "''large-v2'' \<in> UNSAFE_LARGE_MODELS" and b: "''large'' \<in> UNSAFE_LARGE_MODELS"
    by (simp_all add: UNSAFE_LARGE_MODELS_def)
  have gpu: "filter is_substitution_warning
       (new_log world0 (snd (init_model host_gpu ''large-v2'' world0))) =
     [substitution_warning ''large-v2''] \<and>
     new_calls world0 (snd (init_model host_gpu ''large-v2'' world0)) \<noteq> []"
    using unsafe_large_model_substitution [OF host_gpu_fields(2) a refl refl, where w = world0]
    by (simp add: host_gpu_fields)
  have cpu: "filter is_substitution_warning
       (new_log world0 (snd (init_model host_cpu ''large'' world0))) = [] \<and>
     new_calls world0 (snd (init_model host_cpu ''large'' world0)) \<noteq> []"
    using unsafe_large_model_substitution [OF host_cpu_fields(1) b refl refl, where w = world0]
    by (simp add: host_cpu_fields)
  from gpu cpu show ?thesis by simp
qed

section \<open>Runtime path adjustment\<close>

text \<open>
  C8. The claim: \<open>set_cuda_paths\<close> never raises and a second application leaves \<open>PATH\<close>
  and the CUDA path variables as the first one left them. On the code the second
  application prepends the existing wheel directories to \<open>PATH\<close> once more. What holds:
  the call always returns; a second application changes no variable but \<open>PATH\<close>, so
  \<open>CUDA_PATH\<close> and \<open>CUDA_PATH_V12_4\<close> stay; \<open>PATH\<close> stays when nothing is prepended
  (another platform than Windows, no wheel directory, a failing probe) and is otherwise
  the same directories followed by the \<open>PATH\<close> of the first application.
\<close>

theorem set_cuda_paths_repeated:
  "\<exists>w1 w2. set_cuda_paths h w = Inr w1 \<and> set_cuda_paths h w1 = Inr w2 \<and>
     (\<forall>k. k \<noteq> ''PATH'' \<longrightarrow> environ w2 k = environ w1 k) \<and>
     environ w2 ''PATH'' =
       (if cuda_dirs h = [] then environ w1 ''PATH''
        else Some (join (os_pathsep h) (cuda_dirs h @ [the (environ w1 ''PATH'')])))"
proof -
  obtain w1 where w1: "set_cuda_paths h w = Inr w1" using set_cuda_paths_total by blast
  obtain w2 where w2: "set_cuda_paths h w1 = Inr w2" using set_cuda_paths_total by blast
  show ?thesis
  proof (cases "cuda_dirs h = []")
    case True
    then have "environ w2 = environ w1" using w2 by (rule set_cuda_paths_noop)
    with True w1 w2 show ?thesis by simp
  next
    case False
    obtain p where p: "environ w1 ''PATH'' = Some p" "p \<noteq> []"
      using set_cuda_paths_PATH_nonempty [OF False w1] by blast
    have keys: "environ w1 k \<noteq> None" if "k = ''CUDA_PATH'' \<or> k = ''CUDA_PATH_V12_4''" for k
      using set_cuda_paths_env [OF False w1, of k] that by (simp split: if_splits)
    have "environ w2 k = environ w1 k" if "k \<noteq> ''PATH''" for k
      using set_cuda_paths_env [OF False w2, of k] keys [of k] that by (simp split: if_splits)
    then have other: "\<forall>k. k \<noteq> ''PATH'' \<longrightarrow> environ w2 k = environ w1 k"
      by blast
    have "environ w2 ''PATH'' = Some (join (os_pathsep h) (cuda_dirs h @ [p]))"
      using set_cuda_paths_env [OF False w2, of "''PATH''"] p by simp
    with False w1 w2 other p show ?thesis by simp
  qed
qed

theorem set_cuda_paths_repeated_witness:
  "environ (projr (set_cuda_paths host_gpu (projr (set_cuda_paths host_gpu world0)))) ''CUDA_PATH'' =
     environ (projr (set_cuda_paths host_gpu world0)) ''CUDA_PATH'' \<and>
   environ (projr (set_cuda_paths host_gpu (projr (set_cuda_paths host_gpu world0)))) ''PATH'' =
     Some (join '';'' [cublas_bin, the (environ (projr (set_cuda_paths host_gpu world0)) ''PATH'')])"
proof -
  obtain w1 w2 where w1: "set_cuda_paths host_gpu world0 = Inr w1"
    and w2: "set_cuda_paths host_gpu w1 = Inr w2"
    and other: "\<forall>k. k \<noteq> ''PATH'' \<longrightarrow> environ w2 k = environ w1 k"
    and path: "environ w2 ''PATH'' =
       (if cuda_dirs host_gpu = [] then environ w1 ''PATH''
        else Some (join (os_pathsep host_gpu) (cuda_dirs host_gpu @ [the (environ w1 ''PATH'')])))"
    using set_cuda_paths_repeated [of host_gpu world0] by blast
  from other have "environ w2 ''CUDA_PATH'' = environ w1 ''CUDA_PATH''" by simp
  with path show ?thesis
    by (simp add: w1 w2 host_gpu_dirs host_gpu_fields)
qed

theorem set_cuda_paths_repeated_counterexample:
  "environ (projr (set_cuda_paths host_gpu world0)) ''PATH'' =
     Some (cublas_bin @ '';C:/Windows'') \<and>
   environ (projr (set_cuda_paths host_gpu (projr (set_cuda_paths host_gpu world0)))) ''PATH'' =
     Some (cublas_bin @ '';'' @ cublas_bin @ '';C:/Windows'') \<and>
   environ (projr (set_cuda_paths host_gpu (projr (set_cuda_paths host_gpu world0)))) ''PATH'' \<noteq>
     environ (projr (set_cuda_paths host_gpu world0)) ''PATH''"
proof -
  have ne: "cuda_dirs host_gpu \<noteq> []" by (simp add: host_gpu_dirs)
  obtain w1 where w1: "set_cuda_paths host_gpu world0 = Inr w1"
    using set_cuda_paths_total by blast
  obtain w2 where w2: "set_cuda_paths host_gpu w1 = Inr w2"
    using set_cuda_paths_total by blast
  have p1: "environ w1 ''PATH'' = Some (cublas_bin @ '';C:/Windows'')"
    using set_cuda_paths_env [OF ne w1, of "''PATH''"]
    by (simp add: host_gpu_dirs host_gpu_fields world0_def)
  have p2: "environ w2 ''PATH'' = Some (cublas_bin @ '';'' @ cublas_bin @ '';C:/Windows'')"
    using set_cuda_paths_env [OF ne w2, of "''PATH''"]
    by (simp add: host_gpu_dirs host_gpu_fields p1)
  have "cublas_bin @ '';'' @ cublas_bin @ '';C:/Windows'' \<noteq> cublas_bin @ '';C:/Windows''"
    by (simp add: cublas_bin_def)
  with p1 p2 show ?thesis by (simp add: w1 w2)
qed

section \<open>Transcribing a directory\<close>

lemma transcribe_lines [simp]:
  "is_error_line (transcribe_failed_error n e)"
  "\<not> is_error_line (transcribed_info n m k)"
  "\<not> is_error_line (total_info k)"
  "\<not> is_error_line (no_wav_info h d)"
  by (simp_all add: is_error_line_def transcribe_failed_error_def transcribed_info_def
      total_info_def no_wav_info_def)

lemma transcribe_one_fst:
  "fst (transcribe_one h model output_dir f st) =
     fst st @ (if isl (transcript_result h model output_dir f) then [] else [out_path_of output_dir f])"
  by (simp add: transcribe_one_def transcript_result_def Let_def split: sum.splits option.splits)

lemma transcribe_one_log:
  "log (snd (transcribe_one h model output_dir f st)) =
     log (snd st) @ [file_line h model output_dir f]"
  by (simp add: transcribe_one_def transcript_result_def file_line_def Let_def safe_log_simps
      split: sum.splits option.splits)

lemma transcribe_one_files:
  "dom (files (snd (transcribe_one h model output_dir f st))) =
     dom (files (snd st)) \<union>
       (if isl (transcript_result h model output_dir f) then {} else {out_path_of output_dir f})"
  by (simp add: transcribe_one_def transcript_result_def Let_def safe_log_simps
      split: sum.splits option.splits)

lemma transcribe_loop_fst:
  "fst (transcribe_loop h model output_dir fs st) =
     fst st @ map (out_path_of output_dir)
                (filter (\<lambda>f. \<not> isl (transcript_result h model output_dir f)) fs)"
  by (induction fs arbitrary: st) (simp_all add: transcribe_one_fst)

lemma transcribe_loop_log:
  "log (snd (transcribe_loop h model output_dir fs st)) =
     log (snd st) @ map (file_line h model output_dir) fs"
  by (induction fs arbitrary: st) (simp_all add: transcribe_one_log)

lemma transcribe_loop_files:
  "dom (files (snd (transcribe_loop h model output_dir fs st))) =
     dom (files (snd st)) \<union>
       out_path_of output_dir ` {f \<in> set fs. \<not> isl (transcript_result h model output_dir f)}"
  by (induction fs arbitrary: st) (auto simp add: transcribe_one_files)

lemma filter_file_lines:
  "filter is_error_line (map (file_line h model output_dir) fs) =
     map (\<lambda>f. transcribe_failed_error (path_name f) (projl (transcript_result h model output_dir f)))
       (filter (\<lambda>f. isl (transcript_result h model output_dir f)) fs)"
proof (induction fs)
  case Nil
  then show ?case by simp
next
  case (Cons f fs)
  then show ?case
    by (cases "transcript_result h model output_dir f") (simp_all add: file_line_def)
qed

lemma transcribe_audio_files_loaded:
  assumes "mkdir_error h output_dir = None"
    and "(if cuda_wheels_present h \<and> torch_cuda_available h then set_cuda_paths h w else Inr w) = Inr w1"
    and "init_model h model_size w1 = (Inr model, w2)"
  shows "transcribe_audio_files h audio_dir output_dir model_size w =
           (Inr (fst (transcribe_with_model h model audio_dir output_dir w2)),
            snd (transcribe_with_model h model audio_dir output_dir w2))"
  using assms by (simp add: transcribe_audio_files_def Let_def)

lemma transcribe_audio_files_not_loaded:
  assumes "mkdir_error h output_dir = None"
    and "(if cuda_wheels_present h \<and> torch_cuda_available h then set_cuda_paths h w else Inr w) = Inr w1"
    and "init_model h model_size w1 = (Inl e, w2)"
  shows "transcribe_audio_files h audio_dir output_dir model_size w =
           (Inr [], safe_log (load_failed_error model_size e) w2)"
  using assms by (simp add: transcribe_audio_files_def)

lemma init_lines_no_error:
  "\<not> is_error_line (substitution_warning r)"
  "\<not> is_error_line (loading_info m d c)"
  "\<not> is_error_line (init_failed_warning m d c e)"
  by (simp_all add: is_error_line_def substitution_warning_def loading_info_def
      init_failed_warning_def)

lemma filter_cascade_error:
  "filter is_error_line
     (concat (map (\<lambda>c. [loading_info m d c, init_failed_warning m d c (e c)]) fs)) = []"
  by (induction fs) (simp_all add: init_lines_no_error)

lemma filter_loading_error:
  "filter is_error_line (map (loading_info m d) cs) = []"
  by (induction cs) (simp_all add: init_lines_no_error)

lemma init_model_log:
  assumes "whisper_installed h"
  shows "\<exists>ls. log (snd (init_model h model_size w)) = log w @ ls \<and> filter is_error_line ls = []"
proof -
  define requested where
    "requested = (if model_size \<noteq> [] then model_size else DEFAULT_WHISPER_MODEL)"
  define dev where "dev = fst (select_device_and_compute h requested)"
  define preferred where "preferred = snd (select_device_and_compute h requested)"
  define unsafe where "unsafe = (dev = ''cuda'' \<and> requested \<in> UNSAFE_LARGE_MODELS)"
  define effective where "effective = (if unsafe then DEFAULT_WHISPER_MODEL else requested)"
  obtain w2 pl where pl: "\<forall>l \<in> set pl. plain_line l"
    and l2: "log w2 = log w @ (if unsafe then [substitution_warning requested] else []) @ pl"
    and s: "snd (init_model h model_size w) =
              snd (try_candidates h effective dev (compute_candidates dev preferred) None w2)"
    using init_model_installed [OF assms requested_def dev_def preferred_def unsafe_def
        effective_def, of w] by blast
  define ls where "ls = (if unsafe then [substitution_warning requested] else []) @ pl
     @ concat (map (\<lambda>c. [loading_info effective dev c,
                          init_failed_warning effective dev c
                            (the (whisper_init_error h effective dev c))])
                 (takeWhile (\<lambda>c. whisper_init_error h effective dev c \<noteq> None)
                    (compute_candidates dev preferred)))
     @ map (loading_info effective dev)
         (take 1 (dropWhile (\<lambda>c. whisper_init_error h effective dev c \<noteq> None)
                    (compute_candidates dev preferred)))"
  have "log (snd (init_model h model_size w)) = log w @ ls"
    unfolding s try_candidates_log l2 ls_def by simp
  moreover have "filter is_error_line ls = []"
    unfolding ls_def
    by (simp add: filter_plain [OF pl] filter_cascade_error filter_loading_error
        init_lines_no_error)
  ultimately show ?thesis by blast
qed

lemma init_model_fst_indep:
  "fst (init_model h model_size w) = fst (init_model h model_size w')"
proof (cases "whisper_installed h")
  case False
  then show ?thesis by (simp add: init_model_def)
next
  case True
  define requested where
    "requested = (if model_size \<noteq> [] then model_size else DEFAULT_WHISPER_MODEL)"
  define dev where "dev = fst (select_device_and_compute h requested)"
  define preferred where "preferred = snd (select_device_and_compute h requested)"
  define unsafe where "unsafe = (dev = ''cuda'' \<and> requested \<in> UNSAFE_LARGE_MODELS)"
  define effective where "effective = (if unsafe then DEFAULT_WHISPER_MODEL else requested)"
  define candidates where
    "candidates = preferred # ''float32'' # (if dev = ''cuda'' then [''int8''] else [])"
  define fails where "fails = (\<lambda>c. whisper_init_error h effective dev c \<noteq> None)"
  define outcome where "outcome =
     (case dropWhile fails candidates of
        c # _ \<Rightarrow> Inr (WhisperModel effective dev c)
      | [] \<Rightarrow> Inl (init_failure requested dev
                    (whisper_init_error h effective dev (last candidates))))"
  have "fst (init_model h model_size v) = outcome" for v
    using init_model_run [OF True requested_def dev_def preferred_def unsafe_def effective_def
        candidates_def fails_def refl, of v]
    unfolding outcome_def by blast
  then show ?thesis by simp
qed

lemma init_model_loaded_installed:
  "fst (init_model h model_size w) = Inr model \<Longrightarrow> whisper_installed h"
  by (cases "whisper_installed h") (simp_all add: init_model_def)

lemma prologue_paths:
  "\<exists>w1 ls. (if cuda_wheels_present h \<and> torch_cuda_available h then set_cuda_paths h w else Inr w)
             = Inr w1 \<and> log w1 = log w @ ls \<and> filter is_error_line ls = []"
proof (cases "cuda_wheels_present h \<and> torch_cuda_available h")
  case True
  obtain w1 where w1: "set_cuda_paths h w = Inr w1" using set_cuda_paths_total by blast
  then obtain ls where "log w1 = log w @ ls" "\<forall>l \<in> set ls. plain_line l"
    using set_cuda_paths_frame [OF w1] by blast
  then show ?thesis using True w1 filter_plain(3) [of ls] by auto
next
  case False
  then show ?thesis by auto
qed

lemma transcribe_with_model_run:
  assumes "wav_files = wav_files_of h audio_dir"
    and "r = transcribe_with_model h model audio_dir output_dir w"
    and "failed = (\<lambda>f. isl (transcript_result h model output_dir f))"
  shows "fst r = map (out_path_of output_dir) (filter (\<lambda>f. \<not> failed f) wav_files) \<and>
         (\<exists>ls. log (snd r) = log w @ ls \<and>
            filter is_error_line ls =
              map (\<lambda>f. transcribe_failed_error (path_name f)
                          (projl (transcript_result h model output_dir f)))
                (filter failed wav_files)) \<and>
         (\<forall>f \<in> set wav_files. \<not> failed f \<longrightarrow> out_path_of output_dir f \<in> dom (files (snd r)))"
proof (cases "wav_files = []")
  case True
  then have r: "r = ([], safe_log (no_wav_info h audio_dir) w)"
    using assms(1,2) by (simp add: transcribe_with_model_def)
  have "log (snd r) = log w @ [no_wav_info h audio_dir]"
    unfolding r by (simp add: safe_log_simps)
  moreover have "filter is_error_line [no_wav_info h audio_dir] = []" by simp
  ultimately show ?thesis using True r by auto
next
  case False
  define st where "st = transcribe_loop h model output_dir wav_files ([], w)"
  have r: "r = (fst st, safe_log (total_info (length (fst st))) (snd st))"
    using False assms(1,2) by (simp add: transcribe_with_model_def st_def Let_def)
  have paths: "fst r = map (out_path_of output_dir) (filter (\<lambda>f. \<not> failed f) wav_files)"
    unfolding r st_def assms(3) by (simp add: transcribe_loop_fst)
  define ls where "ls = map (file_line h model output_dir) wav_files @ [total_info (length (fst st))]"
  have lg: "log (snd r) = log w @ ls"
    unfolding r st_def ls_def by (simp add: safe_log_simps transcribe_loop_log)
  have errs: "filter is_error_line ls =
           map (\<lambda>f. transcribe_failed_error (path_name f)
                       (projl (transcript_result h model output_dir f)))
             (filter failed wav_files)"
    unfolding ls_def assms(3) by (simp add: filter_file_lines)
  have written: "\<forall>f \<in> set wav_files. \<not> failed f \<longrightarrow> out_path_of output_dir f \<in> dom (files (snd r))"
    unfolding r st_def assms(3) by (simp add: safe_log_simps transcribe_loop_files)
  from paths lg errs written show ?thesis by blast
qed


text \<open>
  C6. When the output directory can be made and the model loads, a file whose
  transcription or whose write fails is caught by \<open>transcribe_audio_files\<close> and leaves
  one error line naming the file and the failure; the other files are still processed.
  The list returned holds exactly the output paths of the files that did not fail, in the
  sorted order, each of them written; the error lines of the whole call are exactly those
  of the failed files; paths and error lines together count the input files.
\<close>

theorem transcribe_isolates_failures:
  assumes "mkdir_error h output_dir = None"
    and "fst (init_model h model_size w) = Inr model"
    and "wav_files = wav_files_of h audio_dir"
    and "failed = (\<lambda>f. isl (transcript_result h model output_dir f))"
    and "r = transcribe_audio_files h audio_dir output_dir model_size w"
  shows "fst r = Inr (map (out_path_of output_dir) (filter (\<lambda>f. \<not> failed f) wav_files)) \<and>
         filter is_error_line (new_log w (snd r)) =
           map (\<lambda>f. transcribe_failed_error (path_name f)
                       (projl (transcript_result h model output_dir f)))
             (filter failed wav_files) \<and>
         (\<forall>f \<in> set wav_files. \<not> failed f \<longrightarrow> out_path_of output_dir f \<in> dom (files (snd r))) \<and>
         length (projr (fst r)) + length (filter is_error_line (new_log w (snd r))) =
           length wav_files"
proof -
  have inst: "whisper_installed h" using assms(2) by (rule init_model_loaded_installed)
  obtain w1 ls0 where p: "(if cuda_wheels_present h \<and> torch_cuda_available h
                            then set_cuda_paths h w else Inr w) = Inr w1"
    and l0: "log w1 = log w @ ls0" and e0: "filter is_error_line ls0 = []"
    using prologue_paths [of h w] by blast
  obtain w2 where i: "init_model h model_size w1 = (Inr model, w2)"
    using assms(2) init_model_fst_indep [of h model_size w1 w]
    by (cases "init_model h model_size w1") simp
  obtain ls1 where l1: "log w2 = log w1 @ ls1" and e1: "filter is_error_line ls1 = []"
    using init_model_log [OF inst, of model_size w1] i by auto
  define t where "t = transcribe_with_model h model audio_dir output_dir w2"
  have r: "r = (Inr (fst t), snd t)"
    unfolding assms(5) t_def
    by (rule transcribe_audio_files_loaded [OF assms(1) p i])
  obtain ls2 where paths: "fst t = map (out_path_of output_dir) (filter (\<lambda>f. \<not> failed f) wav_files)"
    and l2: "log (snd t) = log w2 @ ls2"
    and e2: "filter is_error_line ls2 =
              map (\<lambda>f. transcribe_failed_error (path_name f)
                          (projl (transcript_result h model output_dir f)))
                (filter failed wav_files)"
    and written: "\<forall>f \<in> set wav_files. \<not> failed f \<longrightarrow>
                    out_path_of output_dir f \<in> dom (files (snd t))"
    using transcribe_with_model_run [OF assms(3) t_def assms(4)] by blast
  have res: "fst r = Inr (map (out_path_of output_dir) (filter (\<lambda>f. \<not> failed f) wav_files))"
    unfolding r using paths by simp
  have "new_log w (snd r) = ls0 @ ls1 @ ls2"
    unfolding r by (rule new_log_append) (simp add: l2 l1 l0)
  then have errs: "filter is_error_line (new_log w (snd r)) =
           map (\<lambda>f. transcribe_failed_error (path_name f)
                       (projl (transcript_result h model output_dir f)))
             (filter failed wav_files)"
    by (simp add: e0 e1 e2)
  have wr: "\<forall>f \<in> set wav_files. \<not> failed f \<longrightarrow> out_path_of output_dir f \<in> dom (files (snd r))"
    unfolding r using written by simp
  have "length (filter (\<lambda>f. \<not> failed f) wav_files) + length (filter failed wav_files) =
      length wav_files"
    using sum_length_filter_compl [of failed wav_files] by simp
  then have total: "length (projr (fst r)) + length (filter is_error_line (new_log w (snd r))) =
      length wav_files"
    unfolding res errs by simp
  from res errs wr total show ?thesis by blast
qed


lemma host_cpu_float32_fields:
  "whisper_installed host_cpu_float32"
  "select_device_and_compute host_cpu_float32 m = (''cpu'', ''int8'')"
  "whisper_init_error host_cpu_float32 m d c =
     (if c = ''int8'' then Some (LibraryError ''int8 unsupported'') else None)"
  "mkdir_error host_cpu_float32 d' = None"
  by (simp_all add: host_cpu_float32_def host_cpu_def host_no_wheels_def torch_cuda_available_def
      select_device_and_compute_def Let_def)

lemma host_cpu_float32_loads:
  "fst (init_model host_cpu_float32 ''medium'' world0) = Inr (WhisperModel ''medium'' ''cpu'' ''float32'')"
  using init_model_run [OF host_cpu_float32_fields(1) refl refl refl refl refl refl refl refl,
      where model_size = "''medium''" and w = world0]
  by (auto simp add: host_cpu_float32_fields DEFAULT_WHISPER_MODEL_def UNSAFE_LARGE_MODELS_def)

lemma host_cpu_float32_wavs:
  "wav_files_of host_cpu_float32 dir_in =
     [Path ''/'' [''in'', ''a.wav''], Path ''/'' [''in'', ''b.wav''], Path ''/'' [''in'', ''c.wav'']]"
  by (simp add: wav_files_of_def host_cpu_float32_def host_cpu_def host_no_wheels_def path_key_def
      dir_in_def joinpath_def less_eq_char_def less_char_def)

lemma host_cpu_float32_results:
  "isl (transcript_result host_cpu_float32 m dir_out (Path ''/'' [''in'', ''a.wav''])) = False"
  "transcript_result host_cpu_float32 m dir_out (Path ''/'' [''in'', ''b.wav'']) =
     Inl (LibraryError ''corrupt audio'')"
  "isl (transcript_result host_cpu_float32 m dir_out (Path ''/'' [''in'', ''c.wav''])) = False"
  by (simp_all add: transcript_result_def host_cpu_float32_def host_cpu_def host_no_wheels_def
      path_str_def os_sep_def)

theorem transcribe_isolates_failures_witness:
  "fst (transcribe_audio_files host_cpu_float32 dir_in dir_out ''medium'' world0) =
     Inr [Path ''/'' [''out'', ''a.txt''], Path ''/'' [''out'', ''c.txt'']] \<and>
   filter is_error_line
     (new_log world0 (snd (transcribe_audio_files host_cpu_float32 dir_in dir_out ''medium'' world0))) =
     [''[ERROR] Failed to transcribe b.wav: corrupt audio''] \<and>
   length (projr (fst (transcribe_audio_files host_cpu_float32 dir_in dir_out ''medium'' world0))) = 2"
  using transcribe_isolates_failures [OF host_cpu_float32_fields(4) host_cpu_float32_loads refl refl refl,
      where audio_dir = dir_in and output_dir = dir_out]
  by (simp add: host_cpu_float32_wavs host_cpu_float32_results host_cpu_out_paths
      transcribe_failed_error_def path_name_def)

section \<open>The translator: model and device\<close>

lemma models_differ: "DEFAULT_MODEL_LARGE \<noteq> DEFAULT_MODEL_SMALL"
  by (simp add: DEFAULT_MODEL_LARGE_def DEFAULT_MODEL_SMALL_def)

lemma gib_16_iff:
  "16 \<le> cuda_total_gib h \<longleftrightarrow>
     torch_cuda_is_available h = Inr True \<and> (\<exists>n. torch_total_memory h = Inr n \<and> 16 * 2 ^ 30 \<le> n)"
proof -
  have "(16 \<le> real n / 1024 ^ 3) = (16 * 2 ^ 30 \<le> n)" for n :: nat
  proof -
    have "(16 \<le> real n / 1024 ^ 3) = (16 * 1024 ^ 3 \<le> real n)"
      by (simp add: pos_le_divide_eq)
    also have "\<dots> = (real (16 * 2 ^ 30) \<le> real n)" by simp
    also have "\<dots> = (16 * 2 ^ 30 \<le> n)" by (simp only: of_nat_le_iff)
    finally show ?thesis .
  qed
  then show ?thesis
    by (auto simp add: cuda_total_gib_def split: sum.splits)
qed

text \<open>
  C10. With no model name requested, \<open>_pick_model_name\<close> gives the large model exactly
  when the reported total memory is at least 16 GiB, that is when torch reports CUDA and
  at least \<open>16 * 2 ^ 30\<close> bytes, and the small distilled model otherwise; a failing query
  counts as 0 GiB and gives the small model.
\<close>

theorem pick_model_name_auto:
  "pick_model_name h None =
     (if 16 \<le> cuda_total_gib h then DEFAULT_MODEL_LARGE else DEFAULT_MODEL_SMALL) \<and>
   (pick_model_name h None = DEFAULT_MODEL_LARGE \<longleftrightarrow>
      torch_cuda_is_available h = Inr True \<and>
      (\<exists>n. torch_total_memory h = Inr n \<and> 16 * 2 ^ 30 \<le> n)) \<and>
   (pick_model_name h None \<noteq> DEFAULT_MODEL_LARGE \<longrightarrow>
      pick_model_name h None = DEFAULT_MODEL_SMALL) \<and>
   (isl (torch_cuda_is_available h) \<or> isl (torch_total_memory h) \<longrightarrow>
      cuda_total_gib h = 0 \<and> pick_model_name h None = DEFAULT_MODEL_SMALL)"
proof -
  have pick: "pick_model_name h None =
     (if 16 \<le> cuda_total_gib h then DEFAULT_MODEL_LARGE else DEFAULT_MODEL_SMALL)"
    by (simp add: pick_model_name_def Let_def)
  have iff: "pick_model_name h None = DEFAULT_MODEL_LARGE \<longleftrightarrow>
      torch_cuda_is_available h = Inr True \<and>
      (\<exists>n. torch_total_memory h = Inr n \<and> 16 * 2 ^ 30 \<le> n)"
    unfolding pick gib_16_iff [symmetric] using models_differ by simp
  have small: "pick_model_name h None \<noteq> DEFAULT_MODEL_LARGE \<longrightarrow>
      pick_model_name h None = DEFAULT_MODEL_SMALL"
    unfolding pick by simp
  have zero: "cuda_total_gib h = 0"
    if "isl (torch_cuda_is_available h) \<or> isl (torch_total_memory h)"
    using that by (auto simp add: cuda_total_gib_def split: sum.splits)
  then have fail: "isl (torch_cuda_is_available h) \<or> isl (torch_total_memory h) \<longrightarrow>
      cuda_total_gib h = 0 \<and> pick_model_name h None = DEFAULT_MODEL_SMALL"
    unfolding pick by simp
  from pick iff small fail show ?thesis by blast
qed

theorem pick_model_name_auto_witness:
  "pick_model_name host_24gib None = DEFAULT_MODEL_LARGE \<and>
   pick_model_name host_8gib None = DEFAULT_MODEL_SMALL \<and>
   cuda_total_gib host_broken_query = 0 \<and>
   pick_model_name host_broken_query None = DEFAULT_MODEL_SMALL"
proof -
  have "pick_model_name host_24gib None = DEFAULT_MODEL_LARGE \<longleftrightarrow>
      torch_cuda_is_available host_24gib = Inr True \<and>
      (\<exists>n. torch_total_memory host_24gib = Inr n \<and> 16 * 2 ^ 30 \<le> n)"
    using pick_model_name_auto [of host_24gib] by blast
  then have large: "pick_model_name host_24gib None = DEFAULT_MODEL_LARGE"
    by (simp add: host_memory_fields)
  have "pick_model_name host_8gib None = DEFAULT_MODEL_LARGE \<longleftrightarrow>
      torch_cuda_is_available host_8gib = Inr True \<and>
      (\<exists>n. torch_total_memory host_8gib = Inr n \<and> 16 * 2 ^ 30 \<le> n)"
    and s: "pick_model_name host_8gib None \<noteq> DEFAULT_MODEL_LARGE \<longrightarrow>
      pick_model_name host_8gib None = DEFAULT_MODEL_SMALL"
    using pick_model_name_auto [of host_8gib] by blast+
  then have "pick_model_name host_8gib None \<noteq> DEFAULT_MODEL_LARGE"
    by (simp add: host_memory_fields)
  with s have small: "pick_model_name host_8gib None = DEFAULT_MODEL_SMALL" by blast
  have "isl (torch_cuda_is_available host_broken_query) \<or> isl (torch_total_memory host_broken_query) \<longrightarrow>
      cuda_total_gib host_broken_query = 0 \<and> pick_model_name host_broken_query None = DEFAULT_MODEL_SMALL"
    using pick_model_name_auto [of host_broken_query] by blast
  then have broken: "cuda_total_gib host_broken_query = 0 \<and>
      pick_model_name host_broken_query None = DEFAULT_MODEL_SMALL"
    by (simp add: host_memory_fields)
  from large small broken show ?thesis by blast
qed

section \<open>The translator: memory override and empty input\<close>

lemma log_line_lines:
  "s_lines (log_line log_cb msg st) = s_lines st @ (if log_cb then [msg] else [])"
  by (simp add: log_line_def)

lemma set_allocator_hints_lines: "s_lines (set_allocator_hints st) = s_lines st"
  by (simp add: set_allocator_hints_def)

lemma selected_not_warning: "\<not> is_memory_warning (model_selected_info name dev)"
  by (simp add: is_memory_warning_def model_selected_info_def memory_fallback_warning_def)

lemma pick_explicit: "name \<noteq> [] \<Longrightarrow> pick_model_name h (Some name) = name"
  by (simp add: pick_model_name_def)

lemma large_nonempty: "DEFAULT_MODEL_LARGE \<noteq> []"
  by (simp add: DEFAULT_MODEL_LARGE_def)

text \<open>
  C4. The claim: with the large model chosen, the device \<open>cuda\<close> and less than 16 GiB
  reported, the constructor forces the device to \<open>cpu\<close> and logs exactly one warning
  citing the memory fallback; otherwise the override leaves the device. On the code the
  warning is written under \<open>if log\<close>: without a callback the device is forced and no line
  is logged. What holds: in that case the device is \<open>cpu\<close>, the model is loaded on it, and
  the lines handed to the callback hold the memory warning once when a callback was
  passed and not at all when none was; in every other case the device stays the one
  chosen from torch and there is no memory warning.
\<close>

theorem memory_fallback_override:
  assumes "choose_device h = Inr device0"
    and "chosen = pick_model_name h requested"
    and "fallback = (chosen = DEFAULT_MODEL_LARGE \<and> device0 = ''cuda'' \<and> cuda_total_gib h < 16)"
    and "dev = (if fallback then ''cpu'' else device0)"
    and "r = translator_init h lib src tgt requested log_cb st"
  shows "fst r =
           (case nllb_load_error lib chosen dev of
              Some e \<Rightarrow> Inl e
            | None \<Rightarrow> Inr \<lparr> tr_source_lang = src, tr_target_lang = tgt, tr_device = dev,
                             tr_model_name = chosen \<rparr>) \<and>
         filter is_memory_warning (drop (length (s_lines st)) (s_lines (snd r))) =
           (if fallback \<and> log_cb then [memory_fallback_warning] else [])"
proof -
  have d: "choose_device h = Inr device0" by fact
  have w: "is_memory_warning memory_fallback_warning" by (simp add: is_memory_warning_def)
  have fb: "too_large_for_gpu h chosen device0 = fallback"
    using assms(3) by (simp add: too_large_for_gpu_def)
  have init: "translator_init h lib src tgt requested log_cb st =
      (case nllb_load_error lib chosen dev of
         Some e \<Rightarrow> (Inl e, log_line log_cb (model_selected_info chosen dev)
                      (if dev = ''cuda'' then set_allocator_hints
                         (if fallback then log_line log_cb memory_fallback_warning st else st)
                       else (if fallback then log_line log_cb memory_fallback_warning st else st)))
       | None \<Rightarrow> (Inr \<lparr> tr_source_lang = src, tr_target_lang = tgt, tr_device = dev,
                          tr_model_name = chosen \<rparr>,
                    log_line log_cb (model_selected_info chosen dev)
                      (if dev = ''cuda'' then set_allocator_hints
                         (if fallback then log_line log_cb memory_fallback_warning st else st)
                       else (if fallback then log_line log_cb memory_fallback_warning st else st))))"
  proof (cases fallback)
    case True
    then have dv: "dev = ''cpu''" using assms(4) by simp
    have t: "too_large_for_gpu h chosen device0" using fb True by simp
    show ?thesis
      unfolding translator_init_def d Let_def assms(2) [symmetric]
      by (simp add: t dv True split: option.splits)
  next
    case False
    then have dv: "dev = device0" using assms(4) by simp
    have t: "\<not> too_large_for_gpu h chosen device0" using fb False by simp
    show ?thesis
      unfolding translator_init_def d Let_def assms(2) [symmetric]
      by (simp add: t dv False split: option.splits)
  qed
  have res: "fst (translator_init h lib src tgt requested log_cb st) =
           (case nllb_load_error lib chosen dev of
              Some e \<Rightarrow> Inl e
            | None \<Rightarrow> Inr \<lparr> tr_source_lang = src, tr_target_lang = tgt, tr_device = dev,
                             tr_model_name = chosen \<rparr>)"
    unfolding init by (simp split: option.splits)
  have lines: "s_lines (snd (translator_init h lib src tgt requested log_cb st)) =
      s_lines st @ (if fallback \<and> log_cb then [memory_fallback_warning] else [])
      @ (if log_cb then [model_selected_info chosen dev] else [])"
    unfolding init
    by (cases "nllb_load_error lib chosen dev")
      (simp_all add: log_line_lines set_allocator_hints_lines)
  have "filter is_memory_warning
          (drop (length (s_lines st)) (s_lines (snd (translator_init h lib src tgt requested log_cb st)))) =
           (if fallback \<and> log_cb then [memory_fallback_warning] else [])"
    unfolding lines by (simp add: selected_not_warning w)
  with res show ?thesis unfolding assms(5) by blast
qed

theorem memory_fallback_override_witness:
  "fst (translator_init host_8gib lib_ok ''deu_Latn'' ''eng_Latn'' (Some DEFAULT_MODEL_LARGE) True session0) =
     Inr \<lparr> tr_source_lang = ''deu_Latn'', tr_target_lang = ''eng_Latn'', tr_device = ''cpu'',
           tr_model_name = DEFAULT_MODEL_LARGE \<rparr> \<and>
   filter is_memory_warning
     (s_lines (snd (translator_init host_8gib lib_ok ''deu_Latn'' ''eng_Latn''
                      (Some DEFAULT_MODEL_LARGE) True session0))) = [memory_fallback_warning] \<and>
   fst (translator_init host_24gib lib_ok ''deu_Latn'' ''eng_Latn'' (Some DEFAULT_MODEL_LARGE) True session0) =
     Inr \<lparr> tr_source_lang = ''deu_Latn'', tr_target_lang = ''eng_Latn'', tr_device = ''cuda'',
           tr_model_name = DEFAULT_MODEL_LARGE \<rparr> \<and>
   filter is_memory_warning
     (s_lines (snd (translator_init host_24gib lib_ok ''deu_Latn'' ''eng_Latn''
                      (Some DEFAULT_MODEL_LARGE) True session0))) = []"
proof -
  have small: "fst (translator_init host_8gib lib_ok ''deu_Latn'' ''eng_Latn'' (Some DEFAULT_MODEL_LARGE) True session0) =
     Inr \<lparr> tr_source_lang = ''deu_Latn'', tr_target_lang = ''eng_Latn'', tr_device = ''cpu'',
           tr_model_name = DEFAULT_MODEL_LARGE \<rparr> \<and>
   filter is_memory_warning
     (s_lines (snd (translator_init host_8gib lib_ok ''deu_Latn'' ''eng_Latn''
                      (Some DEFAULT_MODEL_LARGE) True session0))) = [memory_fallback_warning]"
    using memory_fallback_override [OF host_devices(1) refl refl refl refl,
        where lib = lib_ok and src = "''deu_Latn''" and tgt = "''eng_Latn''"
          and requested = "Some DEFAULT_MODEL_LARGE" and log_cb = True and st = session0]
    by (simp add: pick_explicit large_nonempty host_devices lib_ok_def session0_def)
  have big: "fst (translator_init host_24gib lib_ok ''deu_Latn'' ''eng_Latn'' (Some DEFAULT_MODEL_LARGE) True session0) =
     Inr \<lparr> tr_source_lang = ''deu_Latn'', tr_target_lang = ''eng_Latn'', tr_device = ''cuda'',
           tr_model_name = DEFAULT_MODEL_LARGE \<rparr> \<and>
   filter is_memory_warning
     (s_lines (snd (translator_init host_24gib lib_ok ''deu_Latn'' ''eng_Latn''
                      (Some DEFAULT_MODEL_LARGE) True session0))) = []"
    using memory_fallback_override [OF host_devices(2) refl refl refl refl,
        where lib = lib_ok and src = "''deu_Latn''" and tgt = "''eng_Latn''"
          and requested = "Some DEFAULT_MODEL_LARGE" and log_cb = True and st = session0]
    by (simp add: pick_explicit large_nonempty host_devices lib_ok_def session0_def)
  from small big show ?thesis by blast
qed

theorem memory_fallback_override_counterexample:
  "tr_device (projr (fst (translator_init host_8gib lib_ok ''deu_Latn'' ''eng_Latn''
                            (Some DEFAULT_MODEL_LARGE) False session0))) = ''cpu'' \<and>
   s_lines (snd (translator_init host_8gib lib_ok ''deu_Latn'' ''eng_Latn''
                   (Some DEFAULT_MODEL_LARGE) False session0)) = []"
  by (simp add: translator_init_def host_devices pick_explicit large_nonempty
      too_large_for_gpu_def Let_def lib_ok_def session0_def log_line_def)

text \<open>
  C9. For the empty text \<open>translate\<close> returns the empty string and leaves the session as
  it was: no chunk is handed to the tokenizer or to \<open>model.generate\<close>, no line is logged
  and \<open>tokenizer.src_lang\<close> is not set.
\<close>

theorem translate_empty:
  "translate lib tr [] max_chars log_cb st = (Inr [], st)"
  by (simp add: translate_def split_by_sentences_def sentences_of_def re_split_def
      strip_def lstrip_def rstrip_def)

theorem translate_empty_witness:
  "translate lib_ok translator0 [] 400 True session0 = (Inr [], session0) \<and>
   s_generate_calls (snd (translate lib_ok translator0 [] 400 True session0)) = []"
  using translate_empty [of lib_ok translator0 400 True session0]
  by (simp add: session0_def)

section \<open>Sentence-bounded chunks\<close>

lemma strip_stripped: "stripped s \<Longrightarrow> strip s = s"
proof (cases s)
  case Nil
  then show ?thesis by (simp add: strip_def lstrip_def rstrip_def)
next
  case (Cons c cs)
  assume "stripped s"
  then have h: "\<not> is_space (hd s)" and l: "\<not> is_space (last s)"
    using Cons by (simp_all add: stripped_def)
  have a: "dropWhile is_space s = s" using h Cons by simp
  obtain x xs where r: "rev s = x # xs" using Cons by (cases "rev s") simp_all
  have "hd (rev s) = last s" using Cons by (simp add: hd_rev)
  then have "\<not> is_space x" using r l by simp
  then have b: "dropWhile is_space (rev s) = rev s"
    unfolding r by simp
  show ?thesis by (simp add: strip_def lstrip_def rstrip_def a b)
qed

lemma dropWhile_last: "dropWhile P xs \<noteq> [] \<Longrightarrow> last (dropWhile P xs) = last xs"
  by (induction xs) (auto split: if_splits)

lemma stripped_strip: "stripped (strip s)"
proof -
  define t where "t = dropWhile is_space s"
  define u where "u = dropWhile is_space (rev t)"
  have s: "strip s = rev u" by (simp add: strip_def lstrip_def rstrip_def t_def u_def)
  show ?thesis
  proof (cases "u = []")
    case True
    then show ?thesis by (simp add: s stripped_def)
  next
    case False
    then have "rev t \<noteq> []" by (auto simp add: u_def)
    then have tne: "t \<noteq> []" by simp
    have "last u = last (rev t)" using False unfolding u_def by (rule dropWhile_last)
    also have "\<dots> = hd t" using tne by (simp add: last_rev)
    finally have lu: "last u = hd t" .
    have "\<not> is_space (hd t)" using tne unfolding t_def by (rule hd_dropWhile)
    then have a: "\<not> is_space (hd (rev u))" using False lu by (simp add: hd_rev)
    have "\<not> is_space (hd u)" using False unfolding u_def by (rule hd_dropWhile)
    then have b: "\<not> is_space (last (rev u))" using False by (simp add: last_rev)
    from a b show ?thesis by (simp add: s stripped_def)
  qed
qed

lemma eos_not_space: "is_eos c \<Longrightarrow> \<not> is_space c"
  by (auto simp add: is_eos_def is_space_def)

lemma re_split_from_pieces:
  assumes "acc \<noteq> [] \<Longrightarrow> \<not> is_space (last acc)"
    and "acc = [] \<Longrightarrow> s = [] \<or> \<not> is_space (hd s)"
    and "s \<noteq> [] \<Longrightarrow> \<not> is_space (last s)"
    and "s = [] \<Longrightarrow> acc = [] \<or> \<not> is_space (hd acc)"
  shows "\<forall>p \<in> set (re_split_from acc s). stripped p \<and> (p = [] \<longrightarrow> acc = [] \<and> s = [])"
  using assms
proof (induction acc s rule: re_split_from.induct)
  case (1 acc)
  then show ?case by (cases "acc = []") (simp_all add: stripped_def hd_rev last_rev)
next
  case (2 acc c cs)
  show ?case
  proof (cases "is_space c \<and> acc \<noteq> [] \<and> is_eos (hd acc)")
    case True
    then have sp: "is_space c" and ne: "acc \<noteq> []" and eos: "is_eos (hd acc)" by simp_all
    have lastc: "\<not> is_space (last (c # cs))" using "2.prems"(3) by simp
    then have csne: "cs \<noteq> []" using sp by auto
    then have lcs: "\<not> is_space (last cs)" using lastc by simp
    have "last cs \<in> set cs" using csne by simp
    then have dne: "dropWhile is_space cs \<noteq> []"
      using lcs by (auto simp add: dropWhile_eq_Nil_conv)
    have first: "stripped (rev acc) \<and> rev acc \<noteq> []"
      using ne eos_not_space [OF eos] "2.prems"(1) by (simp add: stripped_def hd_rev last_rev)
    have "\<forall>p \<in> set (re_split_from [] (dropWhile is_space cs)).
            stripped p \<and> (p = [] \<longrightarrow> ([]::string) = [] \<and> dropWhile is_space cs = [])"
    proof (rule "2.IH"(1) [OF True])
      show "dropWhile is_space cs = [] \<or> \<not> is_space (hd (dropWhile is_space cs))"
        using hd_dropWhile [of is_space cs] by blast
      show "\<not> is_space (last (dropWhile is_space cs))"
        using dropWhile_last [OF dne] lcs by simp
    qed simp_all
    then have rest: "\<forall>p \<in> set (re_split_from [] (dropWhile is_space cs)). stripped p \<and> p \<noteq> []"
      using dne by blast
    show ?thesis using True first rest by simp
  next
    case False
    have "\<forall>p \<in> set (re_split_from (c # acc) cs).
            stripped p \<and> (p = [] \<longrightarrow> c # acc = [] \<and> cs = [])"
    proof (rule "2.IH"(2) [OF False])
      show "\<not> is_space (last (c # acc))"
        using "2.prems"(1,2) by (cases "acc = []") simp_all
      show "\<not> is_space (last cs)" if "cs \<noteq> []"
        using "2.prems"(3) that by simp
      show "c # acc = [] \<or> \<not> is_space (hd (c # acc))" if "cs = []"
        using "2.prems"(3) that by simp
    qed simp_all
    then show ?thesis using False by auto
  qed
qed

lemma sentences_stripped:
  "\<forall>p \<in> set (sentences_of text). stripped p"
proof -
  have st: "stripped (strip text)" by (rule stripped_strip)
  have "\<forall>p \<in> set (re_split_from [] (strip text)).
          stripped p \<and> (p = [] \<longrightarrow> ([]::string) = [] \<and> strip text = [])"
  proof (rule re_split_from_pieces)
    show "strip text = [] \<or> \<not> is_space (hd (strip text))"
      using st by (auto simp add: stripped_def)
    show "\<not> is_space (last (strip text))" if "strip text \<noteq> []"
      using st that by (simp add: stripped_def)
  qed simp_all
  then show ?thesis by (simp add: sentences_of_def re_split_def)
qed

lemma chunk_ok_single: "chunk_ok m [s]"
  by (auto simp add: chunk_ok_def)

lemma join_snoc: "g \<noteq> [] \<Longrightarrow> join sep (g @ [s]) = join sep g @ sep @ s"
  by (induction sep g rule: join.induct) simp_all

lemma join_nonempty: "g \<noteq> [] \<Longrightarrow> \<forall>s \<in> set g. s \<noteq> [] \<Longrightarrow> join sep g \<noteq> []"
  by (cases g) (simp_all add: join_Cons_nonempty)

lemma join_hd: "g \<noteq> [] \<Longrightarrow> hd g \<noteq> [] \<Longrightarrow> hd (join sep g) = hd (hd g)"
  by (induction sep g rule: join.induct) simp_all

lemma join_last: "g \<noteq> [] \<Longrightarrow> last g \<noteq> [] \<Longrightarrow> last (join sep g) = last (last g)"
proof (cases g rule: rev_cases)
  case Nil
  assume "g \<noteq> []"
  with Nil show ?thesis by simp
next
  case (snoc xs x)
  assume "last g \<noteq> []"
  then have x: "x \<noteq> []" using snoc by simp
  show ?thesis
  proof (cases "xs = []")
    case True
    then show ?thesis using snoc by simp
  next
    case False
    then show ?thesis using snoc x by (simp add: join_snoc)
  qed
qed

lemma join_stripped:
  assumes "g \<noteq> []" and "\<forall>s \<in> set g. s \<noteq> [] \<and> stripped s"
  shows "stripped (join sep g)"
proof -
  have h: "hd g \<noteq> [] \<and> stripped (hd g)" and l: "last g \<noteq> [] \<and> stripped (last g)"
    using assms by simp_all
  have "\<not> is_space (hd (join sep g))"
    using join_hd [OF assms(1), of sep] h by (auto simp add: stripped_def)
  moreover have "\<not> is_space (last (join sep g))"
    using join_last [OF assms(1), of sep] l by (auto simp add: stripped_def)
  ultimately show ?thesis by (simp add: stripped_def)
qed

lemma pack_groups:
  assumes "\<forall>s \<in> set ss. stripped s"
    and "\<forall>s \<in> set g. s \<noteq> [] \<and> stripped s"
    and "current = join '' '' g"
    and "chunks = map (join '' '') gs"
    and "g \<noteq> [] \<longrightarrow> chunk_ok m g"
  shows "\<exists>gs'. pack m ss current chunks = map (join '' '') (gs @ gs') \<and>
           concat gs' = g @ filter (\<lambda>s. s \<noteq> []) ss \<and>
           (\<forall>x \<in> set gs'. chunk_ok m x)"
  using assms
proof (induction ss arbitrary: g current chunks gs)
  case Nil
  show ?case
  proof (cases "g = []")
    case True
    then have "current = []" using Nil.prems(3) by simp
    then have "pack m [] current chunks = map (join '' '') (gs @ [])"
      using Nil.prems(4) by simp
    then show ?thesis using True by (intro exI [of _ "[]"]) simp
  next
    case False
    then have ne: "current \<noteq> []"
      using Nil.prems(2,3) by (simp add: join_nonempty)
    have "stripped current"
      using False Nil.prems(2,3) by (simp add: join_stripped)
    then have "strip current = current" by (rule strip_stripped)
    then have "pack m [] current chunks = map (join '' '') (gs @ [g])"
      using ne Nil.prems(3,4) by simp
    then show ?thesis using False Nil.prems(5) by (intro exI [of _ "[g]"]) simp
  qed
next
  case (Cons s ss)
  have ss: "\<forall>x \<in> set ss. stripped x" and s: "stripped s" using Cons.prems(1) by simp_all
  have cur: "current = [] \<longleftrightarrow> g = []"
    using Cons.prems(2,3) join_nonempty [of g "'' ''"] by (cases "g = []") simp_all
  show ?case
  proof (cases "s = []")
    case True
    obtain gs' where "pack m ss current chunks = map (join '' '') (gs @ gs')"
      and "concat gs' = g @ filter (\<lambda>s. s \<noteq> []) ss" and "\<forall>x \<in> set gs'. chunk_ok m x"
      using Cons.IH [OF ss Cons.prems(2) Cons.prems(3) Cons.prems(4) Cons.prems(5)] by blast
    then show ?thesis using True by (intro exI [of _ gs']) simp
  next
    case nonempty: False
    show ?thesis
    proof (cases "int (length current) + int (length s) \<le> m")
      case fits: True
      define g' where "g' = g @ [s]"
      define current' where
        "current' = (if current \<noteq> [] then strip (current @ '' '' @ s) else s)"
      have g'_elems: "\<forall>x \<in> set g'. x \<noteq> [] \<and> stripped x"
        using Cons.prems(2) nonempty s by (simp add: g'_def)
      have joined: "join '' '' g' = (if g = [] then s else current @ '' '' @ s)"
        using Cons.prems(3) by (simp add: g'_def join_snoc)
      have "stripped (join '' '' g')"
        using g'_elems by (intro join_stripped) (simp_all add: g'_def)
      then have idem: "strip (join '' '' g') = join '' '' g'" by (rule strip_stripped)
      have c': "current' = join '' '' g'"
      proof (cases "g = []")
        case True
        then show ?thesis using joined cur by (simp add: current'_def)
      next
        case False
        then have "join '' '' g' = current @ '' '' @ s" using joined by simp
        with idem have "strip (current @ '' '' @ s) = join '' '' g'" by simp
        then show ?thesis using False cur by (simp add: current'_def)
      qed
      have "int (length (join '' '' g')) \<le> m + 1"
        using fits joined by (cases "g = []") simp_all
      then have w': "g' \<noteq> [] \<longrightarrow> chunk_ok m g'" by (simp add: chunk_ok_def g'_def)
      obtain gs' where p: "pack m ss current' chunks = map (join '' '') (gs @ gs')"
        and c: "concat gs' = g' @ filter (\<lambda>s. s \<noteq> []) ss" and w: "\<forall>x \<in> set gs'. chunk_ok m x"
        using Cons.IH [OF ss g'_elems c' Cons.prems(4) w'] by blast
      have "pack m (s # ss) current chunks = pack m ss current' chunks"
        using nonempty fits by (simp add: current'_def)
      then show ?thesis
        using p c w nonempty by (intro exI [of _ gs']) (simp add: g'_def)
    next
      case over: False
      have elems: "\<forall>x \<in> set [s]. x \<noteq> [] \<and> stripped x" using nonempty s by simp
      have one: "s = join '' '' [s]" by simp
      have w1: "[s] \<noteq> [] \<longrightarrow> chunk_ok m [s]" by (simp add: chunk_ok_single)
      show ?thesis
      proof (cases "g = []")
        case True
        then have step: "pack m (s # ss) current chunks = pack m ss s chunks"
          using nonempty over cur by simp
        obtain gs' where p: "pack m ss s chunks = map (join '' '') (gs @ gs')"
          and c: "concat gs' = [s] @ filter (\<lambda>s. s \<noteq> []) ss" and w: "\<forall>x \<in> set gs'. chunk_ok m x"
          using Cons.IH [OF ss elems one Cons.prems(4) w1] by blast
        show ?thesis
          using step p c w nonempty True by (intro exI [of _ gs']) simp
      next
        case False
        have "stripped current"
          using False Cons.prems(2,3) by (simp add: join_stripped)
        then have sc: "strip current = current" by (rule strip_stripped)
        have step: "pack m (s # ss) current chunks = pack m ss s (chunks @ [current])"
          using nonempty over cur False sc by simp
        have ch: "chunks @ [current] = map (join '' '') (gs @ [g])"
          using Cons.prems(3,4) by simp
        obtain gs' where p: "pack m ss s (chunks @ [current]) = map (join '' '') ((gs @ [g]) @ gs')"
          and c: "concat gs' = [s] @ filter (\<lambda>s. s \<noteq> []) ss" and w: "\<forall>x \<in> set gs'. chunk_ok m x"
          using Cons.IH [OF ss elems one ch w1] by blast
        show ?thesis
          using step p c w nonempty False Cons.prems(5)
          by (intro exI [of _ "g # gs'"]) simp
      qed
    qed
  qed
qed

text \<open>
  C1. The claim: every chunk of \<open>_split_by_sentences\<close> has length at most \<open>max_chars\<close> or
  is a single sentence longer than \<open>max_chars\<close>, and no sentence is split. On the code
  the test \<open>len(current) + len(sentence) <= max_chars\<close> leaves out the space that joins the
  two, so a chunk of several sentences can be one character longer. What holds, for every
  text and every \<open>max_chars\<close>: the chunks are the non-empty sentences, in order, grouped
  into consecutive non-empty groups and joined by one space; each chunk has length at
  most \<open>max_chars + 1\<close> or is a single sentence longer than \<open>max_chars\<close>.
\<close>

theorem split_by_sentences_chunks:
  "\<exists>groups. concat groups = filter (\<lambda>s. s \<noteq> []) (sentences_of text) \<and>
     split_by_sentences text max_chars = map (join '' '') groups \<and>
     (\<forall>g \<in> set groups. g \<noteq> [] \<and>
        (int (length (join '' '' g)) \<le> max_chars + 1 \<or>
         (\<exists>s. g = [s] \<and> max_chars < int (length s))))"
proof -
  have "\<exists>gs'. pack max_chars (sentences_of text) [] [] = map (join '' '') ([] @ gs') \<and>
           concat gs' = [] @ filter (\<lambda>s. s \<noteq> []) (sentences_of text) \<and>
           (\<forall>x \<in> set gs'. chunk_ok max_chars x)"
    by (rule pack_groups) (simp_all add: sentences_stripped)
  then obtain gs' where "pack max_chars (sentences_of text) [] [] = map (join '' '') gs'"
    and "concat gs' = filter (\<lambda>s. s \<noteq> []) (sentences_of text)"
    and "\<forall>x \<in> set gs'. chunk_ok max_chars x"
    by auto
  then show ?thesis
    by (intro exI [of _ gs']) (simp add: split_by_sentences_def chunk_ok_def)
qed

lemma space_chars [simp]:
  "is_space CHR '' ''" "\<not> is_space CHR ''a''" "\<not> is_space CHR ''b''" "\<not> is_space CHR ''.''"
  by (simp_all add: is_space_def)

lemma sentences_a_b: "sentences_of ''a. b'' = [''a.'', ''b'']"
  by (simp add: sentences_of_def re_split_def strip_def lstrip_def rstrip_def is_eos_def)

theorem split_by_sentences_chunks_counterexample:
  "sentences_of ''a. b'' = [''a.'', ''b''] \<and>
   split_by_sentences ''a. b'' 3 = [''a. b''] \<and>
   \<not> int (length ''a. b'') \<le> 3 \<and>
   ''a. b'' \<notin> set (sentences_of ''a. b'')"
  by (simp add: split_by_sentences_def sentences_a_b strip_def lstrip_def rstrip_def)

theorem split_by_sentences_chunks_witness:
  "\<exists>groups. concat groups = [''a.'', ''b''] \<and> [''a. b''] = map (join '' '') groups \<and>
     (\<forall>g \<in> set groups. g \<noteq> [] \<and>
        (int (length (join '' '' g)) \<le> 3 + 1 \<or> (\<exists>s. g = [s] \<and> 3 < int (length s))))"
proof -
  have c: "split_by_sentences ''a. b'' 3 = [''a. b'']"
    by (simp add: split_by_sentences_def sentences_a_b strip_def lstrip_def rstrip_def)
  show ?thesis
    using split_by_sentences_chunks [of "''a. b''" 3] by (simp add: sentences_a_b c)
qed

section \<open>The orchestrator's gate\<close>

lemma warning_rstrip: "rstrip acknowledgement_warning = acknowledgement_warning"
  by (simp add: rstrip_def acknowledgement_warning_def is_space_def)

lemma warning_is_summary:
  "list_ex (\<lambda>p. prefix p acknowledgement_warning) summary_prefixes"
  by (simp add: acknowledgement_warning_def summary_prefixes_def)

text \<open>
  C7. With the acknowledgement not given, \<open>run_selected_steps\<close> hands one line to the
  log, a warning, which as a summary line also reaches the output panel; it invokes no
  stage function and leaves value and maximum of the progress bar as they were, so a
  progress of zero stays zero.
\<close>

theorem unacknowledged_run_does_nothing:
  assumes "\<not> acknowledge_var g" and "g' = run_selected_steps steps_vars g"
  shows "invoked g' = invoked g \<and>
         progress_value g' = progress_value g \<and>
         progress_maximum g' = progress_maximum g \<and>
         file_log g' = file_log g @ [acknowledgement_warning] \<and>
         log_text g' = log_text g @ [acknowledgement_warning] \<and>
         output_text g' = output_text g @ [acknowledgement_warning] \<and>
         prefix ''[WARN]'' acknowledgement_warning"
proof -
  have "g' = log_and_output acknowledgement_warning g"
    using assms by (simp add: run_selected_steps_def)
  then have g': "g' = ui_output acknowledgement_warning
                   (ui_log acknowledgement_warning
                      (g\<lparr>file_log := file_log g @ [acknowledgement_warning]\<rparr>))"
    using warning_is_summary by (simp add: log_and_output_def Let_def)
  have "prefix ''[WARN]'' acknowledgement_warning"
    by (simp add: acknowledgement_warning_def)
  then show ?thesis
    unfolding g' by (simp add: ui_output_def ui_log_def warning_rstrip)
qed

theorem unacknowledged_run_does_nothing_witness:
  "invoked (run_selected_steps steps0 gui0) = [] \<and>
   progress_value (run_selected_steps steps0 gui0) = 0 \<and>
   log_text (run_selected_steps steps0 gui0) = [acknowledgement_warning]"
proof -
  have "\<not> acknowledge_var gui0" by (simp add: gui0_def)
  from unacknowledged_run_does_nothing [OF this refl, of steps0]
  show ?thesis by (simp add: gui0_def)
qed

lemma log_and_output_frame:
  "invoked (log_and_output m g) = invoked g"
  "progress_value (log_and_output m g) = progress_value g"
  "progress_maximum (log_and_output m g) = progress_maximum g"
  by (simp_all add: log_and_output_def Let_def ui_log_def ui_output_def)

lemma acknowledged_run_example:
  "invoked (run_selected_steps steps0 (gui0\<lparr>acknowledge_var := True\<rparr>)) =
     [''Transcribe Audio'', ''Translate Audio Transcripts''] \<and>
   progress_value (run_selected_steps steps0 (gui0\<lparr>acknowledge_var := True\<rparr>)) = 100 \<and>
   progress_maximum (run_selected_steps steps0 (gui0\<lparr>acknowledge_var := True\<rparr>)) = 2"
  by (simp add: run_selected_steps_def steps0_def gui0_def Let_def call_step_def
      log_and_output_frame ui_progress_def app_done_def
      handle_exception_def increment_progress_def)

end
